theory Spec2Isabelle
  imports Complex_Main
begin

section \<open>Numeric conventions\<close>

text \<open>
  The shaders compute with \<open>u32\<close> and \<open>f32\<close>. A \<open>u32\<close> is a natural number and every
  arithmetic result is reduced modulo \<open>2 ^ 32\<close> (\<open>u32\<close> below); WGSL defines integer
  division by zero to return the dividend and the remainder by zero to be 0.
  An \<open>f32\<close> is idealised as a real number: rounding, infinities and NaN are not
  represented, and a division by zero has HOL's value 0 where the device would
  produce an infinity or a NaN.
\<close>

definition u32 :: "nat \<Rightarrow> nat" where
  "u32 n = n mod 2 ^ 32"

definition u32_div :: "nat \<Rightarrow> nat \<Rightarrow> nat" where
  "u32_div a b = (if b = 0 then a else a div b)"

definition u32_mod :: "nat \<Rightarrow> nat \<Rightarrow> nat" where
  "u32_mod a b = (if b = 0 then 0 else a mod b)"

text \<open>Conversion \<open>u32(e)\<close> of a float: truncation towards zero, saturating at the range.\<close>

definition f32_to_u32 :: "real \<Rightarrow> nat" where
  "f32_to_u32 x = (if x < 0 then 0 else if 2 ^ 32 \<le> x then 2 ^ 32 - 1 else nat \<lfloor>x\<rfloor>)"

text \<open>Conversion \<open>i32(e)\<close> of a float: truncation towards zero (saturation left out).\<close>

definition f32_to_i32 :: "real \<Rightarrow> int" where
  "f32_to_i32 x = (if x < 0 then \<lceil>x\<rceil> else \<lfloor>x\<rfloor>)"

definition clamp :: "real \<Rightarrow> real \<Rightarrow> real \<Rightarrow> real" where
  "clamp e low high = min (max e low) high"

definition atan2 :: "real \<Rightarrow> real \<Rightarrow> real" where
  "atan2 y x =
     (if 0 < x then arctan (y / x)
      else if x < 0 then (if 0 \<le> y then arctan (y / x) + pi else arctan (y / x) - pi)
      else if 0 < y then pi / 2
      else if y < 0 then - (pi / 2)
      else 0)"

type_synonym vec2 = "real \<times> real"
type_synonym vec3 = "real \<times> real \<times> real"
type_synonym vec4 = "real \<times> real \<times> real \<times> real"
type_synonym mat4x4 = "vec4 \<times> vec4 \<times> vec4 \<times> vec4"

fun xyz :: "vec4 \<Rightarrow> vec3" where
  "xyz (x, y, z, w) = (x, y, z)"

fun vx :: "vec3 \<Rightarrow> real" where "vx (x, y, z) = x"
fun vy :: "vec3 \<Rightarrow> real" where "vy (x, y, z) = y"
fun vz :: "vec3 \<Rightarrow> real" where "vz (x, y, z) = z"

fun vadd :: "vec3 \<Rightarrow> vec3 \<Rightarrow> vec3" where
  "vadd (a, b, c) (x, y, z) = (a + x, b + y, c + z)"

fun vsub :: "vec3 \<Rightarrow> vec3 \<Rightarrow> vec3" where
  "vsub (a, b, c) (x, y, z) = (a - x, b - y, c - z)"

fun vmul :: "vec3 \<Rightarrow> vec3 \<Rightarrow> vec3" where
  "vmul (a, b, c) (x, y, z) = (a * x, b * y, c * z)"

fun vscale :: "vec3 \<Rightarrow> real \<Rightarrow> vec3" where
  "vscale (a, b, c) k = (a * k, b * k, c * k)"

fun vdivs :: "vec3 \<Rightarrow> real \<Rightarrow> vec3" where
  "vdivs (a, b, c) k = (a / k, b / k, c / k)"

fun dot :: "vec3 \<Rightarrow> vec3 \<Rightarrow> real" where
  "dot (a, b, c) (x, y, z) = a * x + b * y + c * z"

definition vlength :: "vec3 \<Rightarrow> real" where
  "vlength v = sqrt (dot v v)"

definition normalize_vec :: "vec3 \<Rightarrow> vec3" where
  "normalize_vec v = vdivs v (vlength v)"

text \<open>A \<open>mat4x4\<close> is its four columns; \<open>m * v\<close> is the linear combination of the columns.\<close>

fun mulMV :: "mat4x4 \<Rightarrow> vec4 \<Rightarrow> vec4" where
  "mulMV ((a0, a1, a2, a3), (b0, b1, b2, b3), (c0, c1, c2, c3), (d0, d1, d2, d3)) (x, y, z, w) =
     (a0 * x + b0 * y + c0 * z + d0 * w,
      a1 * x + b1 * y + c1 * z + d1 * w,
      a2 * x + b2 * y + c2 * z + d2 * w,
      a3 * x + b3 * y + c3 * z + d3 * w)"

section \<open>Shared declarations (common.wgsl, shaders.ts)\<close>

text \<open>\<open>lightRadius\<close> is the constant the host injects into every shader.\<close>

definition lightRadius :: real where
  "lightRadius = 2"

record ClusteringUniforms =
  viewMat :: mat4x4
  projMat :: mat4x4
  invProjMat :: mat4x4
  screenWidth :: real
  screenHeight :: real
  near :: real
  far :: real
  clustersX :: nat
  clustersY :: nat
  clustersZ :: nat
  maxLightsPerCluster :: nat

record Light =
  position :: vec3
  color :: vec3

text \<open>The light buffer: the active count and the runtime array of lights.\<close>

record Lights =
  numLights :: nat
  lights :: "nat \<Rightarrow> Light"

text \<open>The Cluster Light Table: the two storage buffers, as stores from index to value.\<close>

record ClusterTable =
  clusterCounts :: "nat \<Rightarrow> nat"
  clusterIndices :: "nat \<Rightarrow> nat"

section \<open>The clustering compute shader (clustering.cs.wgsl)\<close>

definition totalClusters :: "ClusteringUniforms \<Rightarrow> nat" where
  "totalClusters cl = u32 (u32 (clustersX cl * clustersY cl) * clustersZ cl)"

definition clusterZ :: "ClusteringUniforms \<Rightarrow> nat \<Rightarrow> nat" where
  "clusterZ cl clusterIndex = u32_div clusterIndex (u32 (clustersX cl * clustersY cl))"

definition clusterXY :: "ClusteringUniforms \<Rightarrow> nat \<Rightarrow> nat" where
  "clusterXY cl clusterIndex = u32_mod clusterIndex (u32 (clustersX cl * clustersY cl))"

definition clusterY :: "ClusteringUniforms \<Rightarrow> nat \<Rightarrow> nat" where
  "clusterY cl clusterIndex = u32_div (clusterXY cl clusterIndex) (clustersX cl)"

definition clusterX :: "ClusteringUniforms \<Rightarrow> nat \<Rightarrow> nat" where
  "clusterX cl clusterIndex = u32_mod (clusterXY cl clusterIndex) (clustersX cl)"

definition fovY :: real where
  "fovY = 45 * 31415926 / 10000000 / 180"

definition aspect :: "ClusteringUniforms \<Rightarrow> real" where
  "aspect cl = screenWidth cl / screenHeight cl"

definition fovX :: "ClusteringUniforms \<Rightarrow> real" where
  "fovX cl = fovY * aspect cl"

definition angleLeft :: "ClusteringUniforms \<Rightarrow> nat \<Rightarrow> real" where
  "angleLeft cl ci = - fovX cl * (1 / 2) + fovX cl * real (clusterX cl ci) / real (clustersX cl)"

definition angleRight :: "ClusteringUniforms \<Rightarrow> nat \<Rightarrow> real" where
  "angleRight cl ci =
     - fovX cl * (1 / 2) + fovX cl * real (u32 (clusterX cl ci + 1)) / real (clustersX cl)"

definition angleDown :: "ClusteringUniforms \<Rightarrow> nat \<Rightarrow> real" where
  "angleDown cl ci =
     - fovY * (1 / 2) + fovY * real (u32 (clusterY cl ci + 1)) / real (clustersY cl)"

definition angleUp :: "ClusteringUniforms \<Rightarrow> nat \<Rightarrow> real" where
  "angleUp cl ci = - fovY * (1 / 2) + fovY * real (clusterY cl ci) / real (clustersY cl)"

definition zSliceDepth :: "ClusteringUniforms \<Rightarrow> real" where
  "zSliceDepth cl = (far cl - near cl) / real (clustersZ cl)"

definition zNear :: "ClusteringUniforms \<Rightarrow> nat \<Rightarrow> real" where
  "zNear cl ci = near cl + zSliceDepth cl * real (clusterZ cl ci)"

definition zFar :: "ClusteringUniforms \<Rightarrow> nat \<Rightarrow> real" where
  "zFar cl ci = near cl + zSliceDepth cl * real (u32 (clusterZ cl ci + 1))"

definition lightPosView :: "ClusteringUniforms \<Rightarrow> Light \<Rightarrow> vec3" where
  "lightPosView cl light =
     (case position light of (px, py, pz) \<Rightarrow> xyz (mulMV (viewMat cl) (px, py, pz, 1)))"

text \<open>The forward distance \<open>lz\<close> of a light, positive in front of the camera.\<close>

definition lightDepth :: "ClusteringUniforms \<Rightarrow> Light \<Rightarrow> real" where
  "lightDepth cl light = - vz (lightPosView cl light)"

text \<open>
  The body of the light loop up to the append: \<open>False\<close> is each of the three
  \<open>continue\<close> statements, \<open>True\<close> is reaching the line "the light intersects this cluster".
\<close>

definition lightIntersects :: "ClusteringUniforms \<Rightarrow> nat \<Rightarrow> Light \<Rightarrow> bool" where
  "lightIntersects cl ci light =
     (let lx = vx (lightPosView cl light);
          ly = vy (lightPosView cl light);
          lz = - vz (lightPosView cl light)
      in if lz < zNear cl ci - lightRadius \<or> lz > zFar cl ci + lightRadius then False
         else
           let horizAngle = atan2 lx (vz (lightPosView cl light) * - 1);
               vertAngle = atan2 ly (vz (lightPosView cl light) * - 1);
               halfAngleHoriz = arcsin (min 1 (lightRadius / max lz (1 / 1000)));
               halfAngleVert = arcsin (min 1 (lightRadius / max lz (1 / 1000)));
               lightAngleLeft = horizAngle - halfAngleHoriz;
               lightAngleRight = horizAngle + halfAngleHoriz;
               lightAngleDown = vertAngle - halfAngleVert;
               lightAngleUp = vertAngle + halfAngleVert
           in if lightAngleRight < angleLeft cl ci \<or> lightAngleLeft > angleRight cl ci then False
              else if lightAngleUp < angleDown cl ci \<or> lightAngleDown > angleUp cl ci then False
              else True)"

text \<open>
  The invocation never reads the two output buffers, so its effect is the sequence of
  its stores: \<open>WIndices a v\<close> is \<open>clusterIndices.data[a] = v\<close> and \<open>WCounts a v\<close> is
  \<open>clusterCounts.data[a] = v\<close>.
\<close>

datatype store = WIndices nat nat | WCounts nat nat

text \<open>
  The loop over the lights, from \<open>lightIndex\<close> with the running \<open>count\<close>: the stores
  into \<open>clusterIndices\<close> in program order and the count at loop exit. Neither
  \<open>lightIndex++\<close> nor \<open>count + 1\<close> can wrap: each is below a \<open>u32\<close> bound when incremented.
\<close>

function lightLoop ::
  "ClusteringUniforms \<Rightarrow> Lights \<Rightarrow> nat \<Rightarrow> nat \<Rightarrow> nat \<Rightarrow> store list \<times> nat" where
  "lightLoop cl L clusterIndex lightIndex count =
     (if lightIndex < numLights L then
        (if \<not> lightIntersects cl clusterIndex (lights L lightIndex)
         then lightLoop cl L clusterIndex (lightIndex + 1) count
         else if count < maxLightsPerCluster cl
         then (case lightLoop cl L clusterIndex (lightIndex + 1) (count + 1) of
                 (ws, k) \<Rightarrow>
                   (WIndices (u32 (u32 (clusterIndex * maxLightsPerCluster cl) + count)) lightIndex
                      # ws, k))
         else lightLoop cl L clusterIndex (lightIndex + 1) count)
      else ([], count))"
  by pat_completeness auto
termination
  by (relation "measure (\<lambda>(cl, L, clusterIndex, lightIndex, count). numLights L - lightIndex)") auto

declare lightLoop.simps [simp del]

text \<open>The entry point, for the invocation with \<open>global_id.x = gid\<close>.\<close>

definition main :: "ClusteringUniforms \<Rightarrow> Lights \<Rightarrow> nat \<Rightarrow> store list" where
  "main cl L gid =
     (if gid \<ge> totalClusters cl then []
      else (case lightLoop cl L gid 0 0 of (ws, count) \<Rightarrow> ws @ [WCounts gid count]))"

fun applyWrite :: "ClusterTable \<Rightarrow> store \<Rightarrow> ClusterTable" where
  "applyWrite T (WIndices a v) = T\<lparr>clusterIndices := (clusterIndices T)(a := v)\<rparr>"
| "applyWrite T (WCounts a v) = T\<lparr>clusterCounts := (clusterCounts T)(a := v)\<rparr>"

definition applyWrites :: "store list \<Rightarrow> ClusterTable \<Rightarrow> ClusterTable" where
  "applyWrites ws T = foldl applyWrite T ws"

section \<open>The host side of the assignment (Lights.doLightClustering)\<close>

definition workgroupSize :: nat where
  "workgroupSize = 64"

definition numClusters :: "ClusteringUniforms \<Rightarrow> nat" where
  "numClusters cl = clustersX cl * clustersY cl * clustersZ cl"

definition numWorkgroups :: "ClusteringUniforms \<Rightarrow> nat" where
  "numWorkgroups cl = nat \<lceil>real (numClusters cl) / real workgroupSize\<rceil>"

text \<open>
  One dispatch: the stores of all \<open>numWorkgroups * 64\<close> invocations, taken in the order
  of their global index, and the table they leave. (Any other order leaves the same
  table when the index table fits a \<open>u32\<close>: lemma \<open>dispatch_order_irrelevant\<close>.)
\<close>

definition dispatchWrites :: "ClusteringUniforms \<Rightarrow> Lights \<Rightarrow> store list" where
  "dispatchWrites cl L = concat (map (main cl L) [0 ..< numWorkgroups cl * workgroupSize])"

definition doLightClustering :: "ClusteringUniforms \<Rightarrow> Lights \<Rightarrow> ClusterTable \<Rightarrow> ClusterTable" where
  "doLightClustering cl L T = applyWrites (dispatchWrites cl L) T"

section \<open>The shading passes (forward_plus.fs.wgsl, clustered_deferred_fullscreen.fs.wgsl)\<close>

text \<open>
  The fragment input of the full-screen pass, and its extension by the interpolated
  vertex attributes for the Forward+ pass.
\<close>

record FullscreenInput =
  uv :: vec2
  fragCoord :: vec4

record FragmentInput = FullscreenInput +
  worldPos :: vec4
  worldNormal :: vec4

text \<open>The three G-buffer textures, read by \<open>textureLoad\<close> at an integer pixel.\<close>

record GBuffer =
  gPositionTex :: "int \<times> int \<Rightarrow> vec4"
  gNormalTex :: "int \<times> int \<Rightarrow> vec4"
  gAlbedoTex :: "int \<times> int \<Rightarrow> vec4"

fun fx :: "vec4 \<Rightarrow> real" where "fx (x, y, z, w) = x"
fun fy :: "vec4 \<Rightarrow> real" where "fy (x, y, z, w) = y"
fun fz :: "vec4 \<Rightarrow> real" where "fz (x, y, z, w) = z"
fun fw :: "vec4 \<Rightarrow> real" where "fw (x, y, z, w) = w"

text \<open>The tile of a pixel coordinate: the same expression for x and y in both shaders.\<close>

definition tileIndex :: "real \<Rightarrow> real \<Rightarrow> nat \<Rightarrow> nat" where
  "tileIndex coord screen clusters =
     f32_to_u32 (clamp (real_of_int \<lfloor>coord / (screen / real clusters)\<rfloor>) 0 (real clusters - 1))"

text \<open>The depth slice of a view depth: the same expression in both shaders.\<close>

definition sliceIndex :: "ClusteringUniforms \<Rightarrow> real \<Rightarrow> nat" where
  "sliceIndex cl viewDepth =
     f32_to_u32 (clamp
       (real_of_int \<lfloor>(viewDepth - near cl) / (far cl - near cl) * real (clustersZ cl)\<rfloor>)
       0 (real (clustersZ cl) - 1))"

definition flatIndex :: "ClusteringUniforms \<Rightarrow> nat \<Rightarrow> nat \<Rightarrow> nat \<Rightarrow> nat" where
  "flatIndex cl xi yi zi =
     u32 (u32 (xi + u32 (yi * clustersX cl)) + u32 (u32 (zi * clustersX cl) * clustersY cl))"

text \<open>Forward+: the view depth is recovered from \<open>fragCoord.z\<close> through \<open>invProjMat\<close>.\<close>

definition forwardViewPos :: "ClusteringUniforms \<Rightarrow> vec4 \<Rightarrow> vec3" where
  "forwardViewPos cl fc =
     (let ndcPos = ((fx fc / screenWidth cl) * 2 - 1,
                    (fy fc / screenHeight cl) * 2 - 1,
                    fz fc * 2 - 1,
                    1);
          viewPos4 = mulMV (invProjMat cl) ndcPos
      in vdivs (xyz viewPos4) (fw viewPos4))"

definition forwardViewDepth :: "ClusteringUniforms \<Rightarrow> vec4 \<Rightarrow> real" where
  "forwardViewDepth cl fc = - vz (forwardViewPos cl fc)"

definition forwardClusterIndex :: "ClusteringUniforms \<Rightarrow> vec4 \<Rightarrow> nat" where
  "forwardClusterIndex cl fc =
     (let clusterXIndex = tileIndex (fx fc) (screenWidth cl) (clustersX cl);
          clusterYIndex = tileIndex (fy fc) (screenHeight cl) (clustersY cl);
          clusterZIndex = sliceIndex cl (forwardViewDepth cl fc)
      in flatIndex cl clusterXIndex clusterYIndex clusterZIndex)"

function forwardLoop ::
  "ClusteringUniforms \<Rightarrow> Lights \<Rightarrow> ClusterTable \<Rightarrow> nat \<Rightarrow> vec3 \<Rightarrow> vec3 \<Rightarrow> nat \<Rightarrow> nat \<Rightarrow> vec3
     \<Rightarrow> vec3" where
  "forwardLoop cl L T clusterIndex fragPos normal numLightsInCluster i lighting =
     (if i < numLightsInCluster then
        (let lightIndex = clusterIndices T (u32 (u32 (clusterIndex * maxLightsPerCluster cl) + i));
             light = lights L lightIndex;
             lightPos = position light;
             lightColor = color light;
             toLight = vsub lightPos fragPos;
             dist = vlength toLight
         in if dist \<le> lightRadius
            then (let atten = 1 - dist / lightRadius;
                      Ldir = vdivs toLight dist;
                      NdotL = max (dot normal Ldir) 0
                  in forwardLoop cl L T clusterIndex fragPos normal numLightsInCluster (i + 1)
                       (vadd lighting (vscale (vscale lightColor NdotL) atten)))
            else forwardLoop cl L T clusterIndex fragPos normal numLightsInCluster (i + 1) lighting)
      else lighting)"
  by pat_completeness auto
termination
  by (relation "measure (\<lambda>(cl, L, T, ci, p, n, k, i, acc). k - i)") auto

declare forwardLoop.simps [simp del]

text \<open>The entry point of the Forward+ fragment shader; \<open>material\<close> is the texture sample.\<close>

definition forward_plus_main ::
  "ClusteringUniforms \<Rightarrow> Lights \<Rightarrow> ClusterTable \<Rightarrow> (vec2 \<Rightarrow> vec3) \<Rightarrow> FragmentInput \<Rightarrow> vec4" where
  "forward_plus_main cl L T material input =
     (let fragPos = xyz (worldPos input);
          normal = normalize_vec (xyz (worldNormal input));
          albedo = material (uv input);
          clusterIndex = forwardClusterIndex cl (fragCoord input);
          numLightsInCluster = clusterCounts T clusterIndex;
          lighting = forwardLoop cl L T clusterIndex fragPos normal numLightsInCluster 0 (0, 0, 0)
      in (case vmul albedo lighting of (r, g, b) \<Rightarrow> (r, g, b, 1)))"

text \<open>Clustered Deferred: the view depth comes from the stored world position.\<close>

definition deferredViewDepth :: "ClusteringUniforms \<Rightarrow> vec3 \<Rightarrow> real" where
  "deferredViewDepth cl fragPos =
     (case fragPos of (px, py, pz) \<Rightarrow> - vz (xyz (mulMV (viewMat cl) (px, py, pz, 1))))"

definition deferredClusterIndex :: "ClusteringUniforms \<Rightarrow> vec4 \<Rightarrow> vec3 \<Rightarrow> nat" where
  "deferredClusterIndex cl fc fragPos =
     (let cX = tileIndex (fx fc) (screenWidth cl) (clustersX cl);
          cY = tileIndex (fy fc) (screenHeight cl) (clustersY cl);
          cZ = sliceIndex cl (deferredViewDepth cl fragPos)
      in flatIndex cl cX cY cZ)"

function deferredLoop ::
  "ClusteringUniforms \<Rightarrow> Lights \<Rightarrow> ClusterTable \<Rightarrow> nat \<Rightarrow> vec3 \<Rightarrow> vec3 \<Rightarrow> nat \<Rightarrow> nat \<Rightarrow> vec3
     \<Rightarrow> vec3" where
  "deferredLoop cl L T clusterIndex fragPos normal lightCount i lightingAccum =
     (if i < lightCount then
        (let lightIndex = clusterIndices T (u32 (u32 (clusterIndex * maxLightsPerCluster cl) + i));
             light = lights L lightIndex;
             lightPos = position light;
             lightColor = color light;
             toLight = vsub lightPos fragPos;
             dist = vlength toLight
         in if dist \<le> lightRadius
            then (let Ldir = vdivs toLight dist;
                      NdotL = max (dot normal Ldir) 0;
                      atten = 1 - dist / lightRadius
                  in deferredLoop cl L T clusterIndex fragPos normal lightCount (i + 1)
                       (vadd lightingAccum (vscale (vscale lightColor NdotL) atten)))
            else deferredLoop cl L T clusterIndex fragPos normal lightCount (i + 1) lightingAccum)
      else lightingAccum)"
  by pat_completeness auto
termination
  by (relation "measure (\<lambda>(cl, L, T, ci, p, n, k, i, acc). k - i)") auto

declare deferredLoop.simps [simp del]

definition deferred_main ::
  "ClusteringUniforms \<Rightarrow> Lights \<Rightarrow> ClusterTable \<Rightarrow> GBuffer \<Rightarrow> FullscreenInput \<Rightarrow> vec4" where
  "deferred_main cl L T G input =
     (let pixelCoord = (f32_to_i32 (fx (fragCoord input)), f32_to_i32 (fy (fragCoord input)));
          storedPos = gPositionTex G pixelCoord;
          fragPos = xyz storedPos;
          storedNorm = gNormalTex G pixelCoord;
          normal = normalize_vec (xyz storedNorm);
          albedoColor = xyz (gAlbedoTex G pixelCoord);
          clusterIndex = deferredClusterIndex cl (fragCoord input) fragPos;
          lightCount = clusterCounts T clusterIndex;
          lightingAccum = deferredLoop cl L T clusterIndex fragPos normal lightCount 0 (0, 0, 0)
      in (case vmul albedoColor lightingAccum of (r, g, b) \<Rightarrow> (r, g, b, 1)))"

section \<open>The geometry pass of Clustered Deferred (clustered_deferred.fs.wgsl)\<close>

record GBufferOutput =
  gPosition :: vec4
  gNormal :: vec4
  gAlbedo :: vec4

fun vec4of :: "vec3 \<Rightarrow> real \<Rightarrow> vec4" where
  "vec4of (x, y, z) w = (x, y, z, w)"

definition gbuffer_main :: "(vec2 \<Rightarrow> vec3) \<Rightarrow> FragmentInput \<Rightarrow> GBufferOutput" where
  "gbuffer_main material input =
     (let normal = normalize_vec (xyz (worldNormal input));
          albedoColor = material (uv input);
          outPos = vec4of (xyz (worldPos input)) 1;
          outNorm = vec4of normal 0;
          outAlbedo = vec4of albedoColor 1
      in \<lparr>gPosition = outPos, gNormal = outNorm, gAlbedo = outAlbedo\<rparr>)"

section \<open>The light stage on the host (Lights)\<close>

text \<open>
  The two members of the class that concern the active light count: the public field
  \<open>numLights\<close> (an integer-valued JavaScript number) and the first four bytes of
  \<open>lightSetStorageBuffer\<close>, which the shaders read as \<open>lightData.numLights\<close>.
\<close>

record LightsStage =
  numLightsField :: int
  bufferNumLights :: nat

definition maxNumLights :: int where
  "maxNumLights = 5000"

text \<open>\<open>new Uint32Array([n])\<close> stores the integer \<open>n\<close> modulo \<open>2 ^ 32\<close>.\<close>

definition toUint32 :: "int \<Rightarrow> nat" where
  "toUint32 n = nat (n mod 2 ^ 32)"

definition updateLightSetUniformNumLights :: "LightsStage \<Rightarrow> LightsStage" where
  "updateLightSetUniformNumLights st = st\<lparr>bufferNumLights := toUint32 (numLightsField st)\<rparr>"

section \<open>Auxiliary notions for the statements\<close>

text \<open>The address of slot \<open>k\<close> of cluster \<open>c\<close>, as both shaders compute it.\<close>

definition addr :: "ClusteringUniforms \<Rightarrow> nat \<Rightarrow> nat \<Rightarrow> nat" where
  "addr cl c k = u32 (u32 (c * maxLightsPerCluster cl) + k)"

text \<open>The lights from index \<open>i\<close> on that pass the test of cluster \<open>c\<close>, in buffer order.\<close>

definition acceptedFrom :: "ClusteringUniforms \<Rightarrow> Lights \<Rightarrow> nat \<Rightarrow> nat \<Rightarrow> nat list" where
  "acceptedFrom cl L c i = filter (\<lambda>j. lightIntersects cl c (lights L j)) [i ..< numLights L]"

text \<open>
  The contribution of one light to a fragment at \<open>fragPos\<close> with unit normal \<open>N\<close>, in the
  words of the specification: \<open>lightColor * max(dot(N, L), 0) * (1 - dist / lightRadius)\<close>
  within \<open>lightRadius\<close>, and nothing beyond.
\<close>

definition contribution :: "vec3 \<Rightarrow> vec3 \<Rightarrow> Light \<Rightarrow> vec3" where
  "contribution fragPos N light =
     (let toLight = vsub (position light) fragPos;
          dist = vlength toLight
      in if dist \<le> lightRadius
         then vscale (vscale (color light) (max (dot N (vdivs toLight dist)) 0)) (1 - dist / lightRadius)
         else (0, 0, 0))"

text \<open>The lights listed for cluster \<open>ci\<close>: the first \<open>clusterCounts[ci]\<close> entries of its list.\<close>

definition clusterLights :: "ClusteringUniforms \<Rightarrow> Lights \<Rightarrow> ClusterTable \<Rightarrow> nat \<Rightarrow> Light list" where
  "clusterLights cl L T ci = map (\<lambda>i. lights L (clusterIndices T (addr cl ci i))) [0 ..< clusterCounts T ci]"

text \<open>The sum of a list of vectors, added from the left.\<close>

definition sumv :: "vec3 list \<Rightarrow> vec3" where
  "sumv vs = foldl vadd (0, 0, 0) vs"

definition rgba :: "vec3 \<Rightarrow> vec4" where
  "rgba c = (case c of (r, g, b) \<Rightarrow> (r, g, b, 1))"

text \<open>Whether a store writes the count of cluster \<open>c\<close>.\<close>

fun isCountStore :: "nat \<Rightarrow> store \<Rightarrow> bool" where
  "isCountStore c (WCounts a v) = (a = c)"
| "isCountStore c (WIndices a v) = False"

section \<open>Concrete inputs\<close>

definition identityMat :: mat4x4 where
  "identityMat = ((1, 0, 0, 0), (0, 1, 0, 0), (0, 0, 1, 0), (0, 0, 0, 1))"

text \<open>
  The projection the camera builds with \<open>mat4.perspective\<close> for a vertical field of view
  of 45 degrees, aspect 16:9, near plane 0.1 and far plane 1000 (depth range 0 to 1), with
  \<open>tan(22.5 deg)\<close> rounded to 0.4142, and its inverse.
\<close>

definition perspectiveMat :: mat4x4 where
  "perspectiveMat =
     ((10000 / 7364, 0, 0, 0), (0, 10000 / 4142, 0, 0),
      (0, 0, - (10000 / 9999), - 1), (0, 0, - (1000 / 9999), 0))"

definition invPerspectiveMat :: mat4x4 where
  "invPerspectiveMat =
     ((7364 / 10000, 0, 0, 0), (0, 4142 / 10000, 0, 0),
      (0, 0, 0, - (9999 / 1000)), (0, 0, - 1, 10))"

text \<open>
  The parameters \<open>Camera.onFrame\<close> uploads (near and far plane, grid and list capacity
  of the class), for a 1920 by 1080 canvas and a camera at the origin looking down \<open>-z\<close>.
\<close>

definition hostUniforms :: ClusteringUniforms where
  "hostUniforms =
     \<lparr>viewMat = identityMat, projMat = perspectiveMat, invProjMat = invPerspectiveMat,
      screenWidth = 1920, screenHeight = 1080, near = 1 / 10, far = 1000,
      clustersX = 10, clustersY = 10, clustersZ = 32, maxLightsPerCluster = 512\<rparr>"

text \<open>A grid of one cluster on a square canvas, with list capacity \<open>m\<close>.\<close>

definition singleCluster :: "nat \<Rightarrow> ClusteringUniforms" where
  "singleCluster m =
     \<lparr>viewMat = identityMat, projMat = identityMat, invProjMat = identityMat,
      screenWidth = 1080, screenHeight = 1080, near = 1 / 10, far = 1000,
      clustersX = 1, clustersY = 1, clustersZ = 1, maxLightsPerCluster = m\<rparr>"

definition lightAt :: "vec3 \<Rightarrow> Light" where
  "lightAt p = \<lparr>position = p, color = (1, 1, 1)\<rparr>"

text \<open>A light buffer holding the given positions, padded with lights at the origin.\<close>

definition lightsOf :: "vec3 list \<Rightarrow> Lights" where
  "lightsOf ps = \<lparr>numLights = length ps, lights = (\<lambda>j. if j < length ps then lightAt (ps ! j) else lightAt (0, 0, 0))\<rparr>"

definition emptyTable :: ClusterTable where
  "emptyTable = \<lparr>clusterCounts = (\<lambda>a. 0), clusterIndices = (\<lambda>a. 0)\<rparr>"

text \<open>One light, and three lights, on the camera axis within \<open>lightRadius\<close> of the camera.\<close>

definition oneNearLight :: Lights where
  "oneNearLight = lightsOf [(0, 0, - 1)]"

definition threeNearLights :: Lights where
  "threeNearLights = lightsOf [(0, 0, - 1), (0, 0, - (3 / 2)), (0, 0, - 2)]"

text \<open>One light on the camera axis, 100 units in front of the camera.\<close>

definition oneCentredLight :: Lights where
  "oneCentredLight = lightsOf [(0, 0, - 100)]"

text \<open>One light 5000 units to the side of the camera and one unit in front of it.\<close>

definition oneSideLight :: Lights where
  "oneSideLight = lightsOf [(5000, 0, - 1)]"

text \<open>One light on the camera axis, 1003 units in front of the camera.\<close>

definition oneFarLight :: Lights where
  "oneFarLight = lightsOf [(0, 0, - 1003)]"

text \<open>The distance of a light from the camera: the length of its view-space position.\<close>

definition lightDistance :: "ClusteringUniforms \<Rightarrow> Light \<Rightarrow> real" where
  "lightDistance cl light = vlength (lightPosView cl light)"

text \<open>
  The light stage when its constructor starts: the field initialiser has stored 200 and
  the buffer has not been written yet.
\<close>

definition initialStage :: LightsStage where
  "initialStage = \<lparr>numLightsField = 200, bufferNumLights = 0\<rparr>"

text \<open>The centre of the pixel in column 1737, row 594, at device depth 3/4.\<close>

definition edgeFragCoord :: vec4 where
  "edgeFragCoord = (3475 / 2, 1189 / 2, 3 / 4, 1)"

text \<open>
  A G-buffer that holds the output of the geometry pass for one fragment (at every pixel:
  only the pixel of that fragment is read below).
\<close>

definition gbufferOf :: "GBufferOutput \<Rightarrow> GBuffer" where
  "gbufferOf out =
     \<lparr>gPositionTex = (\<lambda>p. gPosition out), gNormalTex = (\<lambda>p. gNormal out),
      gAlbedoTex = (\<lambda>p. gAlbedo out)\<rparr>"

definition whiteMaterial :: "vec2 \<Rightarrow> vec3" where
  "whiteMaterial t = (1, 1, 1)"

text \<open>
  A surface point 35 units in front of the camera that faces it, seen at the centre of
  pixel (960, 539): its window position is that of \<open>projMat * viewMat * worldPos\<close>, with
  depth \<open>clip.z / clip.w\<close>.
\<close>

definition depthFragment :: FragmentInput where
  "depthFragment =
     \<lparr>uv = (0, 0), fragCoord = (1921 / 2, 1079 / 2, 69800 / 69993, 1),
      worldPos = (12887 / 960000, 14497 / 1080000, - 35, 1), worldNormal = (0, 0, 1, 0)\<rparr>"

text \<open>The fragment of the full-screen pass at the same pixel.\<close>

definition depthPixel :: FullscreenInput where
  "depthPixel = \<lparr>uv = (1921 / 3840, 1079 / 2160), fragCoord = (1921 / 2, 1079 / 2, 0, 1)\<rparr>"

text \<open>One light 34 units in front of the camera, slightly below its axis.\<close>

definition oneDeepLight :: Lights where
  "oneDeepLight = lightsOf [(0, - (4 / 3), - 34)]"

text \<open>Three lights on the camera axis, 100, 200 and 300 units in front of the camera.\<close>

definition threeCentredLights :: Lights where
  "threeCentredLights = lightsOf [(0, 0, - 100), (0, 0, - 200), (0, 0, - 300)]"

text \<open>
  The centre of a light lies in cluster \<open>c\<close>: its forward distance is within the depth
  bounds, and its horizontal and vertical angles are within the angular bounds, that the
  assignment builds for \<open>c\<close>. Such a light overlaps the cluster, whatever its radius.
\<close>

definition centreInsideCluster :: "ClusteringUniforms \<Rightarrow> nat \<Rightarrow> Light \<Rightarrow> bool" where
  "centreInsideCluster cl c light =
     (zNear cl c \<le> lightDepth cl light \<and> lightDepth cl light \<le> zFar cl c
      \<and> angleLeft cl c \<le> atan2 (vx (lightPosView cl light)) (lightDepth cl light)
      \<and> atan2 (vx (lightPosView cl light)) (lightDepth cl light) \<le> angleRight cl c
      \<and> angleUp cl c \<le> atan2 (vy (lightPosView cl light)) (lightDepth cl light)
      \<and> atan2 (vy (lightPosView cl light)) (lightDepth cl light) \<le> angleDown cl c)"

section \<open>The light control surface\<close>

text \<open>
  The light stage as its constructor leaves it: the field holds 200 and
  \<open>updateLightSetUniformNumLights\<close> has been called once.
\<close>

definition constructedStage :: LightsStage where
  "constructedStage = updateLightSetUniformNumLights initialStage"

text \<open>Modelled from the spec: the two ways in which the light control surface, which is
  not among the sources, may treat a request outside \<open>0 \<le> n \<le> capacity\<close>. The
  specification says that such a request "must be rejected/clamped at the control-surface
  boundary".
\<close>

datatype overflowPolicy = Reject | Clamp

text \<open>Modelled from the spec: the light control surface \<open>setActiveLightCount(n)\<close>, the handler
  behind the GUI control for the number of active lights, which is not among the sources.
  The specification gives it as "exposes \<open>setActiveLightCount(n)\<close> where
  \<open>0 \<le> n \<le> capacity\<close>" and requires that a count exceeding the capacity "must be
  rejected/clamped at the control-surface boundary before entering the pipeline". A request
  within the range sets the field \<open>numLights\<close> and uploads it with the method of the class;
  a request outside it is dropped (\<open>Reject\<close>) or brought into the range first (\<open>Clamp\<close>).
\<close>

definition setActiveLightCount :: "overflowPolicy \<Rightarrow> int \<Rightarrow> LightsStage \<Rightarrow> LightsStage" where
  "setActiveLightCount policy n st =
     (if 0 \<le> n \<and> n \<le> maxNumLights
      then updateLightSetUniformNumLights (st\<lparr>numLightsField := n\<rparr>)
      else (case policy of
              Reject \<Rightarrow> st
            | Clamp \<Rightarrow>
                updateLightSetUniformNumLights (st\<lparr>numLightsField := max 0 (min n maxNumLights)\<rparr>)))"

text \<open>Modelled from the spec: a sequence of requests to the control surface, served in
  order.
\<close>

definition setActiveLightCounts :: "overflowPolicy \<Rightarrow> int list \<Rightarrow> LightsStage \<Rightarrow> LightsStage" where
  "setActiveLightCounts policy ns st = foldl (\<lambda>s n. setActiveLightCount policy n s) st ns"

section \<open>The stores of one invocation and of one dispatch\<close>

lemma acceptedFrom_step:
  "i < numLights L \<Longrightarrow> acceptedFrom cl L c i =
     (if lightIntersects cl c (lights L i) then i # acceptedFrom cl L c (i + 1)
      else acceptedFrom cl L c (i + 1))"
  by (simp add: acceptedFrom_def upt_conv_Cons)

lemma acceptedFrom_done: "\<not> i < numLights L \<Longrightarrow> acceptedFrom cl L c i = []"
  by (simp add: acceptedFrom_def)

lemma lightLoop_char:
  "count \<le> maxLightsPerCluster cl \<Longrightarrow>
   lightLoop cl L c i count =
     (map (\<lambda>(k, j). WIndices (addr cl c k) j)
        (zip [count ..< maxLightsPerCluster cl] (acceptedFrom cl L c i)),
      min (maxLightsPerCluster cl) (count + length (acceptedFrom cl L c i)))"
proof (induction cl L c i count rule: lightLoop.induct)
  case (1 cl L c i count)
  show ?case
  proof (cases "i < numLights L")
    case False
    with "1.prems" show ?thesis
      by (subst lightLoop.simps) (simp add: acceptedFrom_done)
  next
    case True
    note inr = True
    show ?thesis
    proof (cases "lightIntersects cl c (lights L i)")
      case False
      with inr "1.IH"(1) "1.prems" show ?thesis
        by (subst lightLoop.simps) (simp add: acceptedFrom_step)
    next
      case True
      note hit = True
      show ?thesis
      proof (cases "count < maxLightsPerCluster cl")
        case True
        then have upt: "[count ..< maxLightsPerCluster cl] = count # [count + 1 ..< maxLightsPerCluster cl]"
          by (simp add: upt_conv_Cons)
        from True inr hit "1.IH"(2) have
          "lightLoop cl L c (i + 1) (count + 1) =
             (map (\<lambda>(k, j). WIndices (addr cl c k) j)
                (zip [count + 1 ..< maxLightsPerCluster cl] (acceptedFrom cl L c (i + 1))),
              min (maxLightsPerCluster cl) (count + 1 + length (acceptedFrom cl L c (i + 1))))"
          by simp
        with True inr hit upt show ?thesis
          by (subst lightLoop.simps) (simp add: acceptedFrom_step addr_def)
      next
        case False
        with "1.prems" have eq: "count = maxLightsPerCluster cl" by simp
        from False inr hit "1.IH"(3) "1.prems" have
          "lightLoop cl L c (i + 1) count =
             (map (\<lambda>(k, j). WIndices (addr cl c k) j)
                (zip [count ..< maxLightsPerCluster cl] (acceptedFrom cl L c (i + 1))),
              min (maxLightsPerCluster cl) (count + length (acceptedFrom cl L c (i + 1))))"
          by simp
        with False inr hit eq show ?thesis
          by (subst lightLoop.simps) (simp add: acceptedFrom_step)
      qed
    qed
  qed
qed

lemma main_char:
  "main cl L gid =
     (if gid \<ge> totalClusters cl then []
      else map (\<lambda>(k, j). WIndices (addr cl gid k) j)
             (zip [0 ..< maxLightsPerCluster cl] (acceptedFrom cl L gid 0))
           @ [WCounts gid (min (maxLightsPerCluster cl) (length (acceptedFrom cl L gid 0)))])"
  by (simp add: main_def lightLoop_char)

lemma main_WCounts:
  "WCounts a v \<in> set (main cl L gid) \<Longrightarrow>
     a = gid \<and> gid < totalClusters cl \<and> v = min (maxLightsPerCluster cl) (length (acceptedFrom cl L gid 0))"
  by (auto simp: main_char split: if_splits)

lemma main_WIndices:
  "WIndices a v \<in> set (main cl L gid) \<Longrightarrow>
     gid < totalClusters cl \<and>
     (\<exists>k < min (maxLightsPerCluster cl) (length (acceptedFrom cl L gid 0)).
        a = addr cl gid k \<and> v = acceptedFrom cl L gid 0 ! k)"
  apply (auto simp: main_char set_zip split: if_splits)
  done

lemma acceptedFrom_mem:
  "j \<in> set (acceptedFrom cl L c i) \<longleftrightarrow> i \<le> j \<and> j < numLights L \<and> lightIntersects cl c (lights L j)"
  by (auto simp: acceptedFrom_def)

lemma u32_le: "u32 n \<le> n"
  by (simp add: u32_def)

lemma totalClusters_le: "totalClusters cl \<le> numClusters cl"
proof -
  have "totalClusters cl \<le> u32 (clustersX cl * clustersY cl) * clustersZ cl"
    by (simp add: totalClusters_def u32_le)
  also have "\<dots> \<le> (clustersX cl * clustersY cl) * clustersZ cl"
    by (rule mult_le_mono1) (rule u32_le)
  finally show ?thesis by (simp add: numClusters_def)
qed

lemma numClusters_le_threads: "numClusters cl \<le> numWorkgroups cl * workgroupSize"
proof -
  define n where "n = numClusters cl"
  define q where "q = \<lceil>real n / 64\<rceil>"
  have a: "real n / 64 \<le> real_of_int q"
    unfolding q_def by (rule le_of_int_ceiling)
  then have b: "real n \<le> real_of_int q * 64"
    by (simp add: field_simps)
  have "real_of_int (int n) \<le> real_of_int (q * 64)"
    using b by simp
  then have c: "int n \<le> q * 64"
    by (simp only: of_int_le_iff)
  then have "0 \<le> q" by linarith
  with c have "n \<le> nat q * 64" by linarith
  then show ?thesis
    unfolding q_def n_def numWorkgroups_def workgroupSize_def by simp
qed

lemma in_dispatchWrites:
  "w \<in> set (dispatchWrites cl L) \<longleftrightarrow> (\<exists>gid < numWorkgroups cl * workgroupSize. w \<in> set (main cl L gid))"
  by (auto simp: dispatchWrites_def)

lemma thread_dispatched: "c < totalClusters cl \<Longrightarrow> c < numWorkgroups cl * workgroupSize"
  using totalClusters_le [of cl] numClusters_le_threads [of cl] by simp

lemma applyWrites_snoc: "applyWrites (ws @ [w]) T = applyWrite (applyWrites ws T) w"
  by (simp add: applyWrites_def)

lemma applyWrites_counts_unchanged:
  "(\<And>v. WCounts a v \<notin> set ws) \<Longrightarrow> clusterCounts (applyWrites ws T) a = clusterCounts T a"
proof (induction ws rule: rev_induct)
  case Nil
  then show ?case by (simp add: applyWrites_def)
next
  case (snoc w ws)
  then show ?case by (cases w) (auto simp: applyWrites_snoc)
qed

lemma applyWrites_indices_unchanged:
  "(\<And>v. WIndices a v \<notin> set ws) \<Longrightarrow> clusterIndices (applyWrites ws T) a = clusterIndices T a"
proof (induction ws rule: rev_induct)
  case Nil
  then show ?case by (simp add: applyWrites_def)
next
  case (snoc w ws)
  then show ?case by (cases w) (auto simp: applyWrites_snoc)
qed

lemma applyWrites_counts_written:
  "WCounts a v \<in> set ws \<Longrightarrow> WCounts a (clusterCounts (applyWrites ws T) a) \<in> set ws"
proof (induction ws rule: rev_induct)
  case Nil
  then show ?case by simp
next
  case (snoc w ws)
  show ?case
  proof (cases "\<exists>v'. WCounts a v' \<in> set ws")
    case True
    with snoc.IH snoc.prems show ?thesis
      by (cases w) (auto simp: applyWrites_snoc)
  next
    case False
    with snoc.prems have "w = WCounts a v" by auto
    then show ?thesis by (simp add: applyWrites_snoc)
  qed
qed

lemma applyWrites_indices_written:
  "WIndices a v \<in> set ws \<Longrightarrow> WIndices a (clusterIndices (applyWrites ws T) a) \<in> set ws"
proof (induction ws rule: rev_induct)
  case Nil
  then show ?case by simp
next
  case (snoc w ws)
  show ?case
  proof (cases "\<exists>v'. WIndices a v' \<in> set ws")
    case True
    with snoc.IH snoc.prems show ?thesis
      by (cases w) (auto simp: applyWrites_snoc)
  next
    case False
    with snoc.prems have "w = WIndices a v" by auto
    then show ?thesis by (simp add: applyWrites_snoc)
  qed
qed

lemma counts_after:
  assumes "c < totalClusters cl"
  shows "clusterCounts (doLightClustering cl L T) c = min (maxLightsPerCluster cl) (length (acceptedFrom cl L c 0))"
proof -
  from assms have "WCounts c (min (maxLightsPerCluster cl) (length (acceptedFrom cl L c 0))) \<in> set (main cl L c)"
    by (simp add: main_char)
  with assms have "WCounts c (min (maxLightsPerCluster cl) (length (acceptedFrom cl L c 0))) \<in> set (dispatchWrites cl L)"
    using thread_dispatched in_dispatchWrites by blast
  then have "WCounts c (clusterCounts (doLightClustering cl L T) c) \<in> set (dispatchWrites cl L)"
    unfolding doLightClustering_def by (rule applyWrites_counts_written)
  then obtain gid where "WCounts c (clusterCounts (doLightClustering cl L T) c) \<in> set (main cl L gid)"
    using in_dispatchWrites by blast
  then show ?thesis by (auto dest: main_WCounts)
qed

lemma totalClusters_eq: "numClusters cl < 2 ^ 32 \<Longrightarrow> totalClusters cl = numClusters cl"
proof (cases "clustersZ cl = 0")
  case True
  then show ?thesis by (simp add: totalClusters_def numClusters_def u32_def)
next
  case False
  assume lt: "numClusters cl < 2 ^ 32"
  from False have "clustersX cl * clustersY cl \<le> numClusters cl"
    by (simp add: numClusters_def)
  with lt have "clustersX cl * clustersY cl < 2 ^ 32" by simp
  with lt show ?thesis by (simp add: totalClusters_def numClusters_def u32_def)
qed

lemma addr_less:
  assumes "c < totalClusters cl" "k < maxLightsPerCluster cl"
  shows "addr cl c k < numClusters cl * maxLightsPerCluster cl"
proof -
  have "addr cl c k \<le> u32 (c * maxLightsPerCluster cl) + k"
    by (simp add: addr_def u32_le)
  also have "\<dots> \<le> c * maxLightsPerCluster cl + k"
    by (simp add: u32_le)
  also from assms(2) have "\<dots> < (c + 1) * maxLightsPerCluster cl" by simp
  also from assms(1) have "\<dots> \<le> totalClusters cl * maxLightsPerCluster cl"
    by (intro mult_le_mono1) simp
  also have "\<dots> \<le> numClusters cl * maxLightsPerCluster cl"
    by (intro mult_le_mono1 totalClusters_le)
  finally show ?thesis .
qed

lemma dispatch_WCounts:
  "WCounts a v \<in> set (dispatchWrites cl L) \<Longrightarrow> a < totalClusters cl \<and> v \<le> maxLightsPerCluster cl"
  by (auto simp: in_dispatchWrites dest!: main_WCounts)

lemma dispatch_WIndices:
  assumes "WIndices a v \<in> set (dispatchWrites cl L)"
  shows "\<exists>c k. c < totalClusters cl \<and> k < min (maxLightsPerCluster cl) (length (acceptedFrom cl L c 0))
           \<and> a = addr cl c k \<and> v = acceptedFrom cl L c 0 ! k"
proof -
  from assms obtain gid where "WIndices a v \<in> set (main cl L gid)"
    by (auto simp: in_dispatchWrites)
  from main_WIndices [OF this] show ?thesis by blast
qed

lemma filter_count_index_stores:
  "filter (isCountStore c) (map (\<lambda>(k, j). WIndices (f k) j) xs) = []"
  by (induction xs) auto

lemma filter_count_main:
  "filter (isCountStore c) (main cl L gid) =
     (if gid = c \<and> c < totalClusters cl
      then [WCounts c (min (maxLightsPerCluster cl) (length (acceptedFrom cl L c 0)))] else [])"
  by (simp add: main_char filter_count_index_stores)

lemma concat_single:
  "distinct xs \<Longrightarrow> concat (map (\<lambda>g. if g = c \<and> P then ws else []) xs) = (if c \<in> set xs \<and> P then ws else [])"
  by (induction xs) auto

lemma filter_count_dispatch:
  "filter (isCountStore c) (dispatchWrites cl L) =
     (if c < totalClusters cl
      then [WCounts c (min (maxLightsPerCluster cl) (length (acceptedFrom cl L c 0)))] else [])"
proof -
  have "filter (isCountStore c) (dispatchWrites cl L) =
          concat (map (\<lambda>gid. filter (isCountStore c) (main cl L gid)) [0 ..< numWorkgroups cl * workgroupSize])"
    by (simp add: dispatchWrites_def filter_concat o_def)
  also have "\<dots> = (if c \<in> set [0 ..< numWorkgroups cl * workgroupSize] \<and> c < totalClusters cl
      then [WCounts c (min (maxLightsPerCluster cl) (length (acceptedFrom cl L c 0)))] else [])"
    unfolding filter_count_main by (rule concat_single) simp
  finally show ?thesis
    using thread_dispatched [of c cl] by auto
qed

lemma main_idle: "totalClusters cl \<le> gid \<Longrightarrow> main cl L gid = []"
  by (simp add: main_def)

lemma counts_outside:
  "totalClusters cl \<le> a \<Longrightarrow> clusterCounts (doLightClustering cl L T) a = clusterCounts T a"
  unfolding doLightClustering_def
  by (rule applyWrites_counts_unchanged) (auto dest: dispatch_WCounts)

lemma indices_outside:
  assumes "numClusters cl * maxLightsPerCluster cl \<le> a"
  shows "clusterIndices (doLightClustering cl L T) a = clusterIndices T a"
  unfolding doLightClustering_def
proof (rule applyWrites_indices_unchanged)
  fix v
  show "WIndices a v \<notin> set (dispatchWrites cl L)"
  proof
    assume "WIndices a v \<in> set (dispatchWrites cl L)"
    then obtain c k where "c < totalClusters cl" "k < maxLightsPerCluster cl" "a = addr cl c k"
      by (auto dest!: dispatch_WIndices)
    with addr_less [of c cl k] assms show False by simp
  qed
qed

section \<open>A grid of one cluster; three concrete lights\<close>

lemmas cluster_defs =
  clusterX_def clusterY_def clusterZ_def clusterXY_def u32_def u32_div_def u32_mod_def
  angleLeft_def angleRight_def angleUp_def angleDown_def zNear_def zFar_def zSliceDepth_def
  fovX_def aspect_def lightPosView_def lightRadius_def identityMat_def

lemma dispatchWrites_total:
  "dispatchWrites cl L = concat (map (main cl L) [0 ..< totalClusters cl])"
proof -
  define N where "N = numWorkgroups cl * workgroupSize"
  have le: "totalClusters cl \<le> N"
    unfolding N_def using totalClusters_le [of cl] numClusters_le_threads [of cl] by simp
  then have "[0 ..< N] = [0 ..< totalClusters cl] @ [totalClusters cl ..< N]"
    by (metis le_add_diff_inverse upt_add_eq_append zero_le)
  moreover have "concat (map (main cl L) [totalClusters cl ..< N]) = []"
    by (simp add: main_idle)
  ultimately show ?thesis
    by (simp add: dispatchWrites_def N_def)
qed

lemma singleCluster_total: "totalClusters (singleCluster m) = 1"
  by (simp add: totalClusters_def singleCluster_def u32_def)

lemma singleCluster_dispatch:
  "dispatchWrites (singleCluster m) L =
     map (\<lambda>(k, j). WIndices (u32 k) j) (zip [0 ..< m] (acceptedFrom (singleCluster m) L 0 0))
       @ [WCounts 0 (min m (length (acceptedFrom (singleCluster m) L 0 0)))]"
proof -
  have a: "addr (singleCluster m) 0 = u32"
    by (rule ext) (simp add: addr_def u32_def)
  have m: "maxLightsPerCluster (singleCluster m) = m"
    by (simp add: singleCluster_def)
  show ?thesis
    by (simp add: dispatchWrites_total singleCluster_total main_char a m)
qed

lemma near_light_intersects:
  assumes "0 < d" "d \<le> 2"
  shows "lightIntersects (singleCluster m) 0 (lightAt (0, 0, - d))"
proof -
  have r: "min 1 (2 / max d (1 / 1000)) = 1"
    using assms by (simp add: max_def min_def)
  have p: "2 \<le> pi" by (rule pi_ge_two)
  show ?thesis
    using assms p
    by (simp add: lightIntersects_def cluster_defs singleCluster_def lightAt_def atan2_def r fovY_def Let_def)
qed


lemma deep_centred_light_rejected:
  assumes "100 \<le> d"
  shows "\<not> lightIntersects (singleCluster m) 0 (lightAt (0, 0, - d))"
proof -
  have "\<bar>sin (39 / 100 :: real) - (\<Sum>k<3. sin_coeff k * (39 / 100) ^ k)\<bar>
          \<le> inverse (fact 3) * \<bar>39 / 100 :: real\<bar> ^ 3"
    by (rule Maclaurin_sin_bound)
  then have "\<bar>sin (39 / 100 :: real) - 39 / 100\<bar> * 2000000 \<le> 19773"
    by (simp add: sin_coeff_def lessThan_nat_numeral fact_numeral numeral_3_eq_3 lessThan_Suc)
  then have s: "(1 / 50 :: real) < sin (39 / 100)"
    by (simp add: abs_if algebra_simps split: if_splits)
  have p: "2 \<le> pi" by (rule pi_ge_two)
  have "\<not> 39 / 100 \<le> arcsin (1 / 50 :: real)"
    using s p by (subst le_arcsin_iff) auto
  then have h: "arcsin (1 / 50 :: real) < 39 / 100" by simp
  from assms have dpos: "0 < d" by simp
  from assms dpos have q: "0 \<le> 2 / d" "2 / d \<le> 1 / 50"
    by (simp_all add: field_simps)
  have "(- 1 :: real) \<le> 0" by simp
  with q(1) have q1: "- 1 \<le> 2 / d" by (rule order_trans [rotated])
  have q2: "1 / 50 \<le> (1 :: real)" by simp
  from q1 q(2) q2 have "arcsin (2 / d) \<le> arcsin (1 / 50)"
    by (rule arcsin_le_arcsin)
  with h have a: "arcsin (2 / d) < 39 / 100" by simp
  from assms q have r: "min 1 (2 / max d (1 / 1000)) = 2 / d"
    by (simp add: max_def min_def)
  show ?thesis
    using a dpos
    by (simp add: lightIntersects_def cluster_defs singleCluster_def lightAt_def atan2_def r fovY_def Let_def)
qed

lemma far_centred_light_rejected:
  "\<not> lightIntersects (singleCluster m) 0 (lightAt (0, 0, - 100))"
  using deep_centred_light_rejected [of 100 m] by simp

lemma side_light_intersects:
  "lightIntersects (singleCluster m) 0 (lightAt (5000, 0, - 1))"
proof -
  have r: "min 1 (2 / max (1::real) (1 / 1000)) = 1"
    by (simp add: max_def min_def)
  have p: "2 \<le> pi" by (rule pi_ge_two)
  have a1: "arctan 5000 < pi / 2" by (rule arctan_ubound)
  have a2: "0 < arctan (5000::real)" by simp
  show ?thesis
    using p a1
    apply (simp add: lightIntersects_def cluster_defs singleCluster_def lightAt_def atan2_def r fovY_def Let_def)
    using a2 by linarith
qed

lemma oneNearLight_accepted: "acceptedFrom (singleCluster m) oneNearLight 0 0 = [0]"
  using near_light_intersects [of 1 m]
  by (simp add: acceptedFrom_def oneNearLight_def lightsOf_def)

section \<open>Running the stores twice\<close>

lemma applyWrites_counts_indep:
  "\<exists>v. WCounts a v \<in> set ws \<Longrightarrow> clusterCounts (applyWrites ws T) a = clusterCounts (applyWrites ws T') a"
proof (induction ws rule: rev_induct)
  case Nil
  then show ?case by simp
next
  case (snoc w ws)
  show ?case
  proof (cases "\<exists>v'. WCounts a v' \<in> set ws")
    case True
    with snoc.IH show ?thesis
      by (cases w) (auto simp: applyWrites_snoc)
  next
    case False
    with snoc.prems obtain v where "w = WCounts a v" by auto
    then show ?thesis by (simp add: applyWrites_snoc)
  qed
qed

lemma applyWrites_indices_indep:
  "\<exists>v. WIndices a v \<in> set ws \<Longrightarrow> clusterIndices (applyWrites ws T) a = clusterIndices (applyWrites ws T') a"
proof (induction ws rule: rev_induct)
  case Nil
  then show ?case by simp
next
  case (snoc w ws)
  show ?case
  proof (cases "\<exists>v'. WIndices a v' \<in> set ws")
    case True
    with snoc.IH show ?thesis
      by (cases w) (auto simp: applyWrites_snoc)
  next
    case False
    with snoc.prems obtain v where "w = WIndices a v" by auto
    then show ?thesis by (simp add: applyWrites_snoc)
  qed
qed

lemma applyWrites_more: "ClusterTable.more (applyWrites ws T) = ClusterTable.more T"
proof (induction ws rule: rev_induct)
  case Nil
  then show ?case by (simp add: applyWrites_def)
next
  case (snoc w ws)
  then show ?case by (cases w) (auto simp: applyWrites_snoc)
qed

lemma applyWrites_idem: "applyWrites ws (applyWrites ws T) = applyWrites ws T"
proof (rule ClusterTable.equality)
  show "clusterCounts (applyWrites ws (applyWrites ws T)) = clusterCounts (applyWrites ws T)"
  proof
    fix a
    show "clusterCounts (applyWrites ws (applyWrites ws T)) a = clusterCounts (applyWrites ws T) a"
    proof (cases "\<exists>v. WCounts a v \<in> set ws")
      case True
      then show ?thesis by (rule applyWrites_counts_indep)
    next
      case False
      then show ?thesis by (simp add: applyWrites_counts_unchanged)
    qed
  qed
  show "clusterIndices (applyWrites ws (applyWrites ws T)) = clusterIndices (applyWrites ws T)"
  proof
    fix a
    show "clusterIndices (applyWrites ws (applyWrites ws T)) a = clusterIndices (applyWrites ws T) a"
    proof (cases "\<exists>v. WIndices a v \<in> set ws")
      case True
      then show ?thesis by (rule applyWrites_indices_indep)
    next
      case False
      then show ?thesis by (simp add: applyWrites_indices_unchanged)
    qed
  qed
  show "ClusterTable.more (applyWrites ws (applyWrites ws T)) = ClusterTable.more (applyWrites ws T)"
    by (simp add: applyWrites_more)
qed

lemma upt_0_3: "[0 ..< 3] = [0, 1, 2]"
  by (simp add: numeral_3_eq_3 upt_rec)

lemma upt_0_2: "[0 ..< 2] = [0, 1]"
  by (simp add: numeral_2_eq_2 upt_rec)

section \<open>The depth pre-filter\<close>

lemma clusterZ_less:
  assumes "c < totalClusters cl"
  shows "clusterZ cl c < clustersZ cl"
proof -
  define p where "p = u32 (clustersX cl * clustersY cl)"
  from assms have "c < u32 (p * clustersZ cl)"
    by (simp add: totalClusters_def p_def)
  also have "\<dots> \<le> p * clustersZ cl" by (rule u32_le)
  finally have lt: "c < clustersZ cl * p" by (simp add: mult.commute)
  then have "0 < p" by (cases "p = 0") auto
  with lt have "c div p < clustersZ cl"
    by (simp add: div_less_iff_less_mult)
  with \<open>0 < p\<close> show ?thesis
    by (simp add: clusterZ_def u32_div_def p_def)
qed

lemma zFar_le_far:
  assumes "c < totalClusters cl" "near cl \<le> far cl"
  shows "zFar cl c \<le> far cl"
proof -
  define k where "k = u32 (clusterZ cl c + 1)"
  from clusterZ_less [OF assms(1)] have "clusterZ cl c + 1 \<le> clustersZ cl" by simp
  with u32_le [of "clusterZ cl c + 1"] have kle: "k \<le> clustersZ cl"
    unfolding k_def by linarith
  from clusterZ_less [OF assms(1)] have pos: "0 < real (clustersZ cl)" by simp
  from kle have "real k / real (clustersZ cl) \<le> 1"
    using pos by simp
  moreover from assms(2) have "0 \<le> far cl - near cl" by simp
  ultimately have "(far cl - near cl) * (real k / real (clustersZ cl)) \<le> (far cl - near cl) * 1"
    by (rule mult_left_mono)
  then show ?thesis
    by (simp add: zFar_def zSliceDepth_def k_def)
qed

lemma depth_reject:
  "zFar cl c + lightRadius < lightDepth cl light \<Longrightarrow> \<not> lightIntersects cl c light"
  by (simp add: lightIntersects_def lightDepth_def Let_def)

lemma acceptedFrom_without:
  assumes "\<not> lightIntersects cl c (lights L j)"
  shows "acceptedFrom cl L c 0 = filter (\<lambda>i. i \<noteq> j \<and> lightIntersects cl c (lights L i)) [0 ..< numLights L]"
  unfolding acceptedFrom_def using assms by (intro filter_cong) auto

lemma hostUniforms_total: "totalClusters hostUniforms = 3200"
  by (simp add: totalClusters_def hostUniforms_def u32_def)

lemma oneSideLight_accepted: "acceptedFrom (singleCluster m) oneSideLight 0 0 = [0]"
  using side_light_intersects [of m]
  by (simp add: acceptedFrom_def oneSideLight_def lightsOf_def)

lemma oneCentredLight_accepted: "acceptedFrom (singleCluster m) oneCentredLight 0 0 = []"
  using far_centred_light_rejected [of m]
  by (simp add: acceptedFrom_def oneCentredLight_def lightsOf_def)

section \<open>The light accumulation as a sum\<close>

lemma vadd_zero: "vadd acc (0, 0, 0) = acc"
  by (cases acc) simp

lemma forwardLoop_foldl:
  "forwardLoop cl L T ci p N n i acc =
     foldl vadd acc (map (\<lambda>k. contribution p N (lights L (clusterIndices T (addr cl ci k)))) [i ..< n])"
proof (induction cl L T ci p N n i acc rule: forwardLoop.induct)
  case (1 cl L T ci p N n i acc)
  show ?case
  proof (cases "i < n")
    case False
    then show ?thesis by (subst forwardLoop.simps) simp
  next
    case True
    define light where "light = lights L (clusterIndices T (u32 (u32 (ci * maxLightsPerCluster cl) + i)))"
    show ?thesis
    proof (cases "vlength (vsub (position light) p) \<le> lightRadius")
      case near: True
      with True "1.IH"(1) [OF True refl refl refl refl refl refl _ refl refl refl] show ?thesis
        unfolding light_def
        by (subst forwardLoop.simps) (simp add: upt_conv_Cons contribution_def addr_def Let_def)
    next
      case far: False
      with True "1.IH"(2) [OF True refl refl refl refl refl refl] show ?thesis
        unfolding light_def
        by (subst forwardLoop.simps) (simp add: upt_conv_Cons contribution_def addr_def Let_def vadd_zero)
    qed
  qed
qed

lemma deferredLoop_foldl:
  "deferredLoop cl L T ci p N n i acc =
     foldl vadd acc (map (\<lambda>k. contribution p N (lights L (clusterIndices T (addr cl ci k)))) [i ..< n])"
proof (induction cl L T ci p N n i acc rule: deferredLoop.induct)
  case (1 cl L T ci p N n i acc)
  show ?case
  proof (cases "i < n")
    case False
    then show ?thesis by (subst deferredLoop.simps) simp
  next
    case True
    define light where "light = lights L (clusterIndices T (u32 (u32 (ci * maxLightsPerCluster cl) + i)))"
    show ?thesis
    proof (cases "vlength (vsub (position light) p) \<le> lightRadius")
      case near: True
      with True "1.IH"(1) [OF True refl refl refl refl refl refl _ refl refl refl] show ?thesis
        unfolding light_def
        by (subst deferredLoop.simps) (simp add: upt_conv_Cons contribution_def addr_def Let_def)
    next
      case far: False
      with True "1.IH"(2) [OF True refl refl refl refl refl refl] show ?thesis
        unfolding light_def
        by (subst deferredLoop.simps) (simp add: upt_conv_Cons contribution_def addr_def Let_def vadd_zero)
    qed
  qed
qed

section \<open>The index space of the grid\<close>

lemma u32_id: "n < 2 ^ 32 \<Longrightarrow> u32 n = n"
  by (simp add: u32_def)

lemma flat_less:
  assumes "x < cx" "y < cy" "z < cz"
  shows "x + y * cx + z * cx * cy < cx * cy * (cz :: nat)"
proof -
  from assms(1,2) have "x + y * cx < (y + 1) * cx" by simp
  also from assms(2) have "\<dots> \<le> cy * cx" by (intro mult_le_mono1) simp
  finally have a: "x + y * cx < cx * cy" by (simp add: mult.commute)
  then have "x + y * cx + z * cx * cy < (z + 1) * (cx * cy)" by (simp add: algebra_simps)
  also from assms(3) have "\<dots> \<le> cz * (cx * cy)" by (intro mult_le_mono1) simp
  finally show ?thesis by (simp add: algebra_simps)
qed

lemma flatIndex_plain:
  assumes "numClusters cl < 2 ^ 32" "x < clustersX cl" "y < clustersY cl" "z < clustersZ cl"
  shows "flatIndex cl x y z = x + y * clustersX cl + z * clustersX cl * clustersY cl"
proof -
  let ?cx = "clustersX cl" and ?cy = "clustersY cl"
  have tot: "x + y * ?cx + z * ?cx * ?cy < 2 ^ 32"
    using flat_less [OF assms(2,3,4)] assms(1) by (simp add: numClusters_def)
  then have 1: "y * ?cx < 2 ^ 32" and 2: "z * ?cx * ?cy < 2 ^ 32" and 3: "x + y * ?cx < 2 ^ 32"
    by simp_all
  from assms(3) have "1 \<le> ?cy" by simp
  then have "z * ?cx * 1 \<le> z * ?cx * ?cy" by (rule mult_le_mono2)
  then have "z * ?cx \<le> z * ?cx * ?cy" by (simp only: mult_1_right)
  from this 2 have 4: "z * ?cx < 2 ^ 32" by (rule le_less_trans)
  have u1: "u32 (y * ?cx) = y * ?cx" by (rule u32_id [OF 1])
  have u3: "u32 (x + y * ?cx) = x + y * ?cx" by (rule u32_id [OF 3])
  have u4: "u32 (z * ?cx) = z * ?cx" by (rule u32_id [OF 4])
  have u2: "u32 (z * ?cx * ?cy) = z * ?cx * ?cy" by (rule u32_id [OF 2])
  show ?thesis
    unfolding flatIndex_def u1 u3 u4 u2 by (rule u32_id [OF tot])
qed

lemma decompose_flat:
  assumes "x < cx" "y < (cy::nat)"
  shows "(x + y * cx + z * cx * cy) div (cx * cy) = z"
    and "(x + y * cx + z * cx * cy) mod (cx * cy) = x + y * cx"
proof -
  from assms have "x + y * cx < (y + 1) * cx" by simp
  also from assms(2) have "\<dots> \<le> cy * cx" by (intro mult_le_mono1) simp
  finally have a: "x + y * cx < cx * cy" by (simp add: mult.commute)
  have e: "x + y * cx + z * cx * cy = (x + y * cx) + z * (cx * cy)" by (simp add: algebra_simps)
  from assms have nz: "cx * cy \<noteq> 0" by auto
  have "(x + y * cx + z * (cx * cy)) div (cx * cy) = z + (x + y * cx) div (cx * cy)"
    by (rule div_mult_self1 [OF nz])
  with a show "(x + y * cx + z * cx * cy) div (cx * cy) = z"
    by (simp only: e div_less add_0_right)
  have "(x + y * cx + z * (cx * cy)) mod (cx * cy) = (x + y * cx) mod (cx * cy)"
    by (rule mod_mult_self1)
  with a show "(x + y * cx + z * cx * cy) mod (cx * cy) = x + y * cx"
    by (simp only: e mod_less)
qed

lemma cell_of_flat:
  assumes "numClusters cl < 2 ^ 32" "x < clustersX cl" "y < clustersY cl" "z < clustersZ cl"
  shows "clusterX cl (flatIndex cl x y z) = x"
    and "clusterY cl (flatIndex cl x y z) = y"
    and "clusterZ cl (flatIndex cl x y z) = z"
    and "flatIndex cl x y z < totalClusters cl"
proof -
  let ?cx = "clustersX cl" and ?cy = "clustersY cl"
  have fl: "flatIndex cl x y z = x + y * ?cx + z * ?cx * ?cy"
    by (rule flatIndex_plain [OF assms])
  from assms(4) have "?cx * ?cy \<le> numClusters cl" by (simp add: numClusters_def)
  with assms(1) have p: "u32 (?cx * ?cy) = ?cx * ?cy" by (simp add: u32_id)
  from assms(2,3) have pos: "?cx * ?cy \<noteq> 0" "?cx \<noteq> 0" by auto
  have xy: "clusterXY cl (flatIndex cl x y z) = x + y * ?cx"
    using pos by (simp add: clusterXY_def u32_mod_def p fl decompose_flat [OF assms(2,3)])
  show "clusterZ cl (flatIndex cl x y z) = z"
    using pos by (simp add: clusterZ_def u32_div_def p fl decompose_flat [OF assms(2,3)])
  show "clusterY cl (flatIndex cl x y z) = y"
    using pos assms(2) by (simp add: clusterY_def u32_div_def xy)
  show "clusterX cl (flatIndex cl x y z) = x"
    using pos assms(2) by (simp add: clusterX_def u32_mod_def xy)
  show "flatIndex cl x y z < totalClusters cl"
    using flat_less [OF assms(2,3,4)] by (simp add: fl totalClusters_eq [OF assms(1)] numClusters_def)
qed

lemma slice_of_depth:
  assumes lt: "near cl < far cl" and k: "k < clustersZ cl" and c32: "clustersZ cl < 2 ^ 32"
    and lo: "near cl + zSliceDepth cl * real k \<le> d"
    and hi: "d < near cl + zSliceDepth cl * real (k + 1)"
  shows "sliceIndex cl d = k"
proof -
  define n where "n = real (clustersZ cl)"
  define w where "w = far cl - near cl"
  define q where "q = (d - near cl) / w * n"
  from k have npos: "0 < n" by (simp add: n_def)
  from lt have wpos: "0 < w" by (simp add: w_def)
  from lo have "w / n * real k \<le> d - near cl"
    by (simp add: zSliceDepth_def w_def n_def)
  then have "real k * w \<le> (d - near cl) * n"
    using npos by (simp add: field_simps)
  then have ql: "real k \<le> q"
    using wpos by (simp add: q_def field_simps)
  from hi have "d - near cl < w / n * (real k + 1)"
    by (simp add: zSliceDepth_def w_def n_def algebra_simps)
  then have "(d - near cl) * n < (real k + 1) * w"
    using npos by (simp add: field_simps)
  then have qh: "q < real k + 1"
    using wpos by (simp add: q_def field_simps)
  from ql qh have fl: "\<lfloor>q\<rfloor> = int k"
    by (simp add: floor_eq_iff)
  from k have "real k \<le> n - 1" by (simp add: n_def)
  then have cl: "clamp (real k) 0 (n - 1) = real k"
    by (simp add: clamp_def)
  from k c32 have "real k < 2 ^ 32"
    by (metis less_trans of_nat_less_iff of_nat_numeral of_nat_power)
  then have "f32_to_u32 (real k) = k"
    by (simp add: f32_to_u32_def)
  with fl cl show ?thesis
    by (simp add: sliceIndex_def q_def w_def n_def)
qed

section \<open>Bounds on the arc tangent\<close>

lemma cos_ge_quadratic: "1 - t\<^sup>2 / 2 \<le> cos (t::real)"
proof -
  have "\<bar>sin (t / 2)\<bar> \<le> \<bar>t / 2\<bar>" by (rule abs_sin_x_le_abs_x)
  then have "(sin (t / 2))\<^sup>2 \<le> (t / 2)\<^sup>2" by (simp only: abs_le_square_iff)
  moreover have "cos (2 * (t / 2)) = 1 - 2 * (sin (t / 2))\<^sup>2" by (rule cos_double_sin)
  ultimately show ?thesis by (simp add: power_divide)
qed

lemma tan_le_bound:
  fixes t :: real
  assumes "0 \<le> t" "t < 1"
  shows "tan t \<le> t / (1 - t\<^sup>2 / 2)"
proof -
  from assms have "\<bar>t\<bar> < 1" by simp
  then have "t\<^sup>2 < 1" by (simp only: abs_square_less_1)
  then have pos: "0 < 1 - t\<^sup>2 / 2" by simp
  have "t \<le> pi" using assms pi_ge_two by linarith
  with assms have s0: "0 \<le> sin t" by (intro sin_ge_zero)
  from assms have s1: "sin t \<le> t" by (intro sin_x_le_x)
  have "sin t / cos t \<le> t / (1 - t\<^sup>2 / 2)"
    by (rule frac_le [OF _ s1 pos cos_ge_quadratic]) (use s0 assms in linarith)
  then show ?thesis by (simp add: tan_def)
qed

lemma arctan_lower:
  fixes t :: real
  assumes "0 \<le> t" "t < 1" "t / (1 - t\<^sup>2 / 2) \<le> y"
  shows "t \<le> arctan y"
proof -
  from tan_le_bound [OF assms(1,2)] assms(3) have "tan t \<le> y" by simp
  then have "arctan (tan t) \<le> arctan y" by (rule arctan_monotone')
  moreover have "arctan (tan t) = t"
    using assms pi_ge_two by (intro arctan_tan) linarith+
  ultimately show ?thesis by simp
qed

lemma arctan_upper_self:
  assumes "0 \<le> (y::real)"
  shows "arctan y \<le> y"
proof -
  have d: "\<exists>m. ((\<lambda>u. u - arctan u) has_real_derivative m) (at u) \<and> 0 \<le> m" for u :: real
  proof (intro exI conjI)
    show "((\<lambda>u. u - arctan u) has_real_derivative (1 - inverse (1 + u\<^sup>2))) (at u)"
      by (auto intro!: derivative_eq_intros)
    have "1 \<le> 1 + u\<^sup>2" by simp
    then have "inverse (1 + u\<^sup>2) \<le> 1" by (rule inverse_le_1_iff [THEN iffD2, OF disjI2])
    then show "0 \<le> 1 - inverse (1 + u\<^sup>2)" by simp
  qed
  have "0 - arctan 0 \<le> y - arctan y"
    by (rule DERIV_nonneg_imp_nondecreasing [OF assms]) (use d in blast)
  then show ?thesis by simp
qed

lemma arctan_upper_double:
  fixes h :: real
  assumes "0 \<le> h" "h < 1" "y \<le> 2 * h / (1 - h\<^sup>2)"
  shows "arctan y \<le> 2 * h"
proof -
  from assms have "\<bar>h\<bar> < 1" by simp
  then have "2 * arctan h = arctan (2 * h / (1 - h\<^sup>2))" by (rule arctan_double)
  moreover from assms(3) have "arctan y \<le> arctan (2 * h / (1 - h\<^sup>2))" by (rule arctan_monotone')
  moreover from assms(1) have "arctan h \<le> h" by (rule arctan_upper_self)
  ultimately show ?thesis by linarith
qed

section \<open>A fragment near the right edge of the screen\<close>

lemma host_cell_58:
  "clusterX hostUniforms 58 = 8" "clusterY hostUniforms 58 = 5" "clusterZ hostUniforms 58 = 0"
  by (simp_all add: clusterX_def clusterY_def clusterZ_def clusterXY_def u32_def u32_div_def
      u32_mod_def hostUniforms_def)

lemma edge_viewPos:
  "forwardViewPos hostUniforms edgeFragCoord
     = (7364 / 10000 * (311 / 384) / (10001 / 2000), 4142 / 10000 * (109 / 1080) / (10001 / 2000),
        - 1 / (10001 / 2000))"
  by (simp add: forwardViewPos_def hostUniforms_def edgeFragCoord_def invPerspectiveMat_def Let_def)


lemma edge_depth: "forwardViewDepth hostUniforms edgeFragCoord = 2000 / 10001"
  by (simp add: forwardViewDepth_def edge_viewPos)

lemma edge_tiles:
  "tileIndex (fx edgeFragCoord) (screenWidth hostUniforms) (clustersX hostUniforms) = 9"
  "tileIndex (fy edgeFragCoord) (screenHeight hostUniforms) (clustersY hostUniforms) = 5"
  "sliceIndex hostUniforms (2000 / 10001) = 0"
  by (simp_all add: tileIndex_def sliceIndex_def hostUniforms_def edgeFragCoord_def clamp_def f32_to_u32_def)

lemma edge_index: "forwardClusterIndex hostUniforms edgeFragCoord = 59"
  by (simp add: forwardClusterIndex_def edge_tiles edge_depth Let_def)
     (simp add: flatIndex_def u32_def hostUniforms_def)

lemma edge_horizontal:
  "atan2 (vx (forwardViewPos hostUniforms edgeFragCoord)) (forwardViewDepth hostUniforms edgeFragCoord)
     = arctan (572551 / 960000)"
  "atan2 (vy (forwardViewPos hostUniforms edgeFragCoord)) (forwardViewDepth hostUniforms edgeFragCoord)
     = arctan (225739 / 5400000)"
  by (simp_all add: edge_depth edge_viewPos atan2_def)

section \<open>The entries of the table after a dispatch\<close>

lemma addr_plain:
  assumes "numClusters cl * maxLightsPerCluster cl \<le> 2 ^ 32" "c < totalClusters cl"
    "k < maxLightsPerCluster cl"
  shows "addr cl c k = c * maxLightsPerCluster cl + k"
proof -
  let ?m = "maxLightsPerCluster cl"
  from assms(3) have "c * ?m + k < (c + 1) * ?m" by simp
  also from assms(2) have "\<dots> \<le> totalClusters cl * ?m" by (intro mult_le_mono1) simp
  also have "\<dots> \<le> numClusters cl * ?m" by (intro mult_le_mono1 totalClusters_le)
  finally have a: "c * ?m + k < 2 ^ 32" using assms(1) by simp
  then have b: "c * ?m < 2 ^ 32" by simp
  have "u32 (c * ?m) = c * ?m" by (rule u32_id [OF b])
  then show ?thesis
    unfolding addr_def by (simp add: u32_id [OF a])
qed

lemma slot_unique:
  assumes "c * m + k = c' * m + k'" "k < m" "k' < (m::nat)"
  shows "c = c' \<and> k = k'"
proof -
  from assms(2) have "(c * m + k) div m = c" by simp
  moreover from assms(3) have "(c' * m + k') div m = c'" by simp
  ultimately have "c = c'" using assms(1) by simp
  with assms(1) show ?thesis by simp
qed

lemma indices_after:
  assumes "numClusters cl * maxLightsPerCluster cl \<le> 2 ^ 32" "c < totalClusters cl"
    "k < min (maxLightsPerCluster cl) (length (acceptedFrom cl L c 0))"
  shows "clusterIndices (doLightClustering cl L T) (c * maxLightsPerCluster cl + k)
           = acceptedFrom cl L c 0 ! k"
proof -
  let ?m = "maxLightsPerCluster cl"
  let ?a = "c * ?m + k"
  from assms(3) have km: "k < ?m" by simp
  have a: "addr cl c k = ?a" by (rule addr_plain [OF assms(1,2) km])
  from assms(2,3) have "WIndices (addr cl c k) (acceptedFrom cl L c 0 ! k) \<in> set (main cl L c)"
    by (auto simp: main_char set_zip intro!: exI [of _ k])
  with assms(2) have "WIndices ?a (acceptedFrom cl L c 0 ! k) \<in> set (dispatchWrites cl L)"
    unfolding a using thread_dispatched in_dispatchWrites by blast
  then have "WIndices ?a (clusterIndices (doLightClustering cl L T) ?a) \<in> set (dispatchWrites cl L)"
    unfolding doLightClustering_def by (rule applyWrites_indices_written)
  from dispatch_WIndices [OF this] obtain c' k' where c': "c' < totalClusters cl"
    and k': "k' < min ?m (length (acceptedFrom cl L c' 0))"
    and e: "?a = addr cl c' k'"
    and v: "clusterIndices (doLightClustering cl L T) ?a = acceptedFrom cl L c' 0 ! k'"
    by blast
  from k' have k'm: "k' < ?m" by simp
  from e addr_plain [OF assms(1) c' k'm] have "c * ?m + k = c' * ?m + k'" by simp
  from slot_unique [OF this km k'm] v show ?thesis by simp
qed

lemma arcsin_lower_self:
  assumes "0 \<le> y" "y \<le> (1::real)"
  shows "y \<le> arcsin y"
proof -
  from assms have "sin y \<le> y" by (intro sin_x_le_x)
  moreover have "- (pi / 2) \<le> y" "y \<le> pi / 2"
    using assms pi_ge_two by linarith+
  ultimately show ?thesis
    using assms by (subst le_arcsin_iff) auto
qed

lemma listed_lights_pass_test:
  assumes "numClusters cl * maxLightsPerCluster cl \<le> 2 ^ 32" "c < totalClusters cl"
    "k < clusterCounts (doLightClustering cl L T) c"
  shows "clusterIndices (doLightClustering cl L T) (c * maxLightsPerCluster cl + k) < numLights L"
    and "lightIntersects cl c
           (lights L (clusterIndices (doLightClustering cl L T) (c * maxLightsPerCluster cl + k)))"
proof -
  from assms(3) have k: "k < min (maxLightsPerCluster cl) (length (acceptedFrom cl L c 0))"
    by (simp add: counts_after [OF assms(2)])
  then have "acceptedFrom cl L c 0 ! k \<in> set (acceptedFrom cl L c 0)" by simp
  then have "acceptedFrom cl L c 0 ! k < numLights L
      \<and> lightIntersects cl c (lights L (acceptedFrom cl L c 0 ! k))"
    by (simp add: acceptedFrom_mem)
  then show "clusterIndices (doLightClustering cl L T) (c * maxLightsPerCluster cl + k) < numLights L"
    and "lightIntersects cl c
           (lights L (clusterIndices (doLightClustering cl L T) (c * maxLightsPerCluster cl + k)))"
    by (simp_all add: indices_after [OF assms(1,2) k])
qed

lemma passing_light_missing_only_on_overflow:
  assumes "numClusters cl * maxLightsPerCluster cl \<le> 2 ^ 32" "c < totalClusters cl"
    and "j < numLights L" and "lightIntersects cl c (lights L j)"
    and "\<And>k. k < clusterCounts (doLightClustering cl L T) c \<Longrightarrow>
           clusterIndices (doLightClustering cl L T) (c * maxLightsPerCluster cl + k) \<noteq> j"
  shows "clusterCounts (doLightClustering cl L T) c = maxLightsPerCluster cl"
proof (rule ccontr)
  assume ne: "clusterCounts (doLightClustering cl L T) c \<noteq> maxLightsPerCluster cl"
  let ?acc = "acceptedFrom cl L c 0"
  from ne have cnt: "clusterCounts (doLightClustering cl L T) c = length ?acc"
    and lt: "length ?acc < maxLightsPerCluster cl"
    by (simp_all add: counts_after [OF assms(2)] min_def split: if_splits)
  from assms(3,4) have "j \<in> set ?acc" by (simp add: acceptedFrom_mem)
  then obtain k where k: "k < length ?acc" and j: "?acc ! k = j"
    by (auto simp: in_set_conv_nth)
  from k lt have "k < min (maxLightsPerCluster cl) (length ?acc)" by simp
  from indices_after [OF assms(1,2) this] j
  have "clusterIndices (doLightClustering cl L T) (c * maxLightsPerCluster cl + k) = j" by simp
  moreover from k cnt have "k < clusterCounts (doLightClustering cl L T) c" by simp
  ultimately show False using assms(5) by blast
qed

text \<open>The order in which the invocations run does not matter.\<close>

lemma applyWrites_same_stores:
  assumes "set ws = set ws'"
    and "\<And>a v v'. WCounts a v \<in> set ws \<Longrightarrow> WCounts a v' \<in> set ws \<Longrightarrow> v = v'"
    and "\<And>a v v'. WIndices a v \<in> set ws \<Longrightarrow> WIndices a v' \<in> set ws \<Longrightarrow> v = v'"
  shows "applyWrites ws T = applyWrites ws' T"
proof (rule ClusterTable.equality)
  show "clusterCounts (applyWrites ws T) = clusterCounts (applyWrites ws' T)"
  proof
    fix a
    show "clusterCounts (applyWrites ws T) a = clusterCounts (applyWrites ws' T) a"
    proof (cases "\<exists>v. WCounts a v \<in> set ws")
      case True
      then obtain v where v: "WCounts a v \<in> set ws" by blast
      from applyWrites_counts_written [OF v]
      have 1: "WCounts a (clusterCounts (applyWrites ws T) a) \<in> set ws" .
      from v assms(1) have "WCounts a v \<in> set ws'" by simp
      from applyWrites_counts_written [OF this] assms(1)
      have 2: "WCounts a (clusterCounts (applyWrites ws' T) a) \<in> set ws" by simp
      from assms(2) [OF 1 2] show ?thesis .
    next
      case False
      with assms(1) show ?thesis by (simp add: applyWrites_counts_unchanged)
    qed
  qed
  show "clusterIndices (applyWrites ws T) = clusterIndices (applyWrites ws' T)"
  proof
    fix a
    show "clusterIndices (applyWrites ws T) a = clusterIndices (applyWrites ws' T) a"
    proof (cases "\<exists>v. WIndices a v \<in> set ws")
      case True
      then obtain v where v: "WIndices a v \<in> set ws" by blast
      from applyWrites_indices_written [OF v]
      have 1: "WIndices a (clusterIndices (applyWrites ws T) a) \<in> set ws" .
      from v assms(1) have "WIndices a v \<in> set ws'" by simp
      from applyWrites_indices_written [OF this] assms(1)
      have 2: "WIndices a (clusterIndices (applyWrites ws' T) a) \<in> set ws" by simp
      from assms(3) [OF 1 2] show ?thesis .
    next
      case False
      with assms(1) show ?thesis by (simp add: applyWrites_indices_unchanged)
    qed
  qed
  show "ClusterTable.more (applyWrites ws T) = ClusterTable.more (applyWrites ws' T)"
    by (simp add: applyWrites_more)
qed

lemma dispatch_order_irrelevant:
  assumes "numClusters cl * maxLightsPerCluster cl \<le> 2 ^ 32"
    and "set gids = {0 ..< numWorkgroups cl * workgroupSize}"
  shows "applyWrites (concat (map (main cl L) gids)) T = doLightClustering cl L T"
  unfolding doLightClustering_def
proof (rule applyWrites_same_stores [symmetric])
  show "set (dispatchWrites cl L) = set (concat (map (main cl L) gids))"
    using assms(2) by (simp add: dispatchWrites_def)
next
  fix a v v'
  assume "WCounts a v \<in> set (dispatchWrites cl L)" "WCounts a v' \<in> set (dispatchWrites cl L)"
  then show "v = v'"
    by (auto simp: in_dispatchWrites dest!: main_WCounts)
next
  fix a v v'
  assume "WIndices a v \<in> set (dispatchWrites cl L)" "WIndices a v' \<in> set (dispatchWrites cl L)"
  then obtain c k c' k' where c: "c < totalClusters cl"
    and k: "k < min (maxLightsPerCluster cl) (length (acceptedFrom cl L c 0))"
    and a: "a = addr cl c k" and v: "v = acceptedFrom cl L c 0 ! k"
    and c': "c' < totalClusters cl"
    and k': "k' < min (maxLightsPerCluster cl) (length (acceptedFrom cl L c' 0))"
    and a': "a = addr cl c' k'" and v': "v' = acceptedFrom cl L c' 0 ! k'"
    by (blast dest!: dispatch_WIndices)
  from k k' have km: "k < maxLightsPerCluster cl" "k' < maxLightsPerCluster cl" by simp_all
  from a a' addr_plain [OF assms(1) c km(1)] addr_plain [OF assms(1) c' km(2)]
  have "c * maxLightsPerCluster cl + k = c' * maxLightsPerCluster cl + k'" by simp
  from slot_unique [OF this km] v v' show "v = v'" by simp
qed

section \<open>One fragment seen by both shading passes\<close>

lemma host_cell_145:
  "clusterX hostUniforms 145 = 5" "clusterY hostUniforms 145 = 4" "clusterZ hostUniforms 145 = 1"
  by (simp_all add: clusterX_def clusterY_def clusterZ_def clusterXY_def u32_def u32_div_def
      u32_mod_def hostUniforms_def)

lemma host_cell_45:
  "clusterX hostUniforms 45 = 5" "clusterY hostUniforms 45 = 4" "clusterZ hostUniforms 45 = 0"
  by (simp_all add: clusterX_def clusterY_def clusterZ_def clusterXY_def u32_def u32_div_def
      u32_mod_def hostUniforms_def)

lemma deep_light_view: "lightPosView hostUniforms (lightAt (0, - (4 / 3), - 34)) = (0, - (4 / 3), - 34)"
  by (simp add: lightPosView_def lightAt_def hostUniforms_def identityMat_def)

lemma deep_light_bounds_145:
  "zNear hostUniforms 145 - lightRadius \<le> 34" "34 \<le> zFar hostUniforms 145 + lightRadius"
  "angleLeft hostUniforms 145 = 0" "0 \<le> angleRight hostUniforms 145"
  "angleDown hostUniforms 145 = 0" "- (39 / 1000) - 1 / 17 \<le> angleUp hostUniforms 145"
  by (simp_all add: zNear_def zFar_def zSliceDepth_def angleLeft_def angleRight_def angleUp_def
        angleDown_def fovX_def aspect_def fovY_def host_cell_145 u32_def lightRadius_def)
     (simp_all add: hostUniforms_def)

lemma deep_light_145: "lightIntersects hostUniforms 145 (lightAt (0, - (4 / 3), - 34))"
proof -
  have r: "min 1 (lightRadius / 34) = 1 / 17"
    by (simp add: lightRadius_def)
  have s: "1 / 17 \<le> arcsin (1 / 17 :: real)"
    by (rule arcsin_lower_self) simp_all
  have al: "39 / 1000 \<le> arctan (2 / 51 :: real)"
    by (rule arctan_lower) (simp_all add: power2_eq_square)
  have au: "arctan (2 / 51 :: real) \<le> 2 / 51"
    by (rule arctan_upper_self) simp
  have h: "atan2 0 34 = 0" and v: "atan2 (- (4 / 3)) 34 = - arctan (2 / 51)"
    by (simp_all add: atan2_def arctan_minus [symmetric])
  show ?thesis
    unfolding lightIntersects_def deep_light_view Let_def
    using deep_light_bounds_145 s al au
    by (simp add: r h v)
qed


lemma deep_light_45: "\<not> lightIntersects hostUniforms 45 (lightAt (0, - (4 / 3), - 34))"
proof -
  have "zFar hostUniforms 45 + lightRadius < 34"
    by (simp add: zFar_def zSliceDepth_def host_cell_45 u32_def lightRadius_def)
       (simp add: hostUniforms_def)
  then have "zFar hostUniforms 45 + lightRadius < lightDepth hostUniforms (lightAt (0, - (4 / 3), - 34))"
    by (simp add: lightDepth_def deep_light_view)
  then show ?thesis by (rule depth_reject)
qed

lemma oneDeepLight_accepted:
  "acceptedFrom hostUniforms oneDeepLight 145 0 = [0]"
  "acceptedFrom hostUniforms oneDeepLight 45 0 = []"
  using deep_light_145 deep_light_45
  by (simp_all add: acceptedFrom_def oneDeepLight_def lightsOf_def)

lemma deep_table:
  "clusterCounts (doLightClustering hostUniforms oneDeepLight T) 45 = 0"
  "clusterCounts (doLightClustering hostUniforms oneDeepLight T) 145 = 1"
  "clusterIndices (doLightClustering hostUniforms oneDeepLight T) 74240 = 0"
proof -
  have m: "maxLightsPerCluster hostUniforms = 512"
    by (simp add: hostUniforms_def)
  show "clusterCounts (doLightClustering hostUniforms oneDeepLight T) 45 = 0"
    by (simp add: counts_after hostUniforms_total oneDeepLight_accepted)
  show "clusterCounts (doLightClustering hostUniforms oneDeepLight T) 145 = 1"
    by (simp add: counts_after hostUniforms_total oneDeepLight_accepted m)
  have "clusterIndices (doLightClustering hostUniforms oneDeepLight T)
          (145 * maxLightsPerCluster hostUniforms + 0) = acceptedFrom hostUniforms oneDeepLight 145 0 ! 0"
    by (rule indices_after) (simp_all add: hostUniforms_total oneDeepLight_accepted m, simp add: numClusters_def hostUniforms_def)
  then show "clusterIndices (doLightClustering hostUniforms oneDeepLight T) 74240 = 0"
    by (simp add: m oneDeepLight_accepted)
qed

lemma depth_indices:
  "forwardClusterIndex hostUniforms (fragCoord depthFragment) = 45"
  "deferredClusterIndex hostUniforms (fragCoord depthPixel) (xyz (worldPos depthFragment)) = 145"
proof -
  have d: "forwardViewDepth hostUniforms (fragCoord depthFragment) = 7000 / 393"
    by (simp add: forwardViewDepth_def forwardViewPos_def hostUniforms_def depthFragment_def
        invPerspectiveMat_def Let_def)
  have t: "tileIndex (1921 / 2) (screenWidth hostUniforms) (clustersX hostUniforms) = 5"
      "tileIndex (1079 / 2) (screenHeight hostUniforms) (clustersY hostUniforms) = 4"
      "sliceIndex hostUniforms (7000 / 393) = 0" "sliceIndex hostUniforms 35 = 1"
    by (simp_all add: tileIndex_def sliceIndex_def hostUniforms_def clamp_def f32_to_u32_def)
  have f: "flatIndex hostUniforms 5 4 0 = 45" "flatIndex hostUniforms 5 4 (Suc 0) = 145"
    by (simp_all add: flatIndex_def u32_def hostUniforms_def)
  show "forwardClusterIndex hostUniforms (fragCoord depthFragment) = 45"
    by (simp add: forwardClusterIndex_def d Let_def) (simp add: depthFragment_def t f)
  have e: "deferredViewDepth hostUniforms (xyz (worldPos depthFragment)) = 35"
    by (simp add: deferredViewDepth_def depthFragment_def hostUniforms_def identityMat_def)
  show "deferredClusterIndex hostUniforms (fragCoord depthPixel) (xyz (worldPos depthFragment)) = 145"
    by (simp add: deferredClusterIndex_def e Let_def) (simp add: depthPixel_def t f)
qed


lemma depth_forward_output:
  "forward_plus_main hostUniforms oneDeepLight (doLightClustering hostUniforms oneDeepLight T)
     whiteMaterial depthFragment = (0, 0, 0, 1)"
  by (simp add: forward_plus_main_def depth_indices deep_table forwardLoop_foldl whiteMaterial_def Let_def)

lemma depth_gbuffer:
  "gbuffer_main whiteMaterial depthFragment =
     \<lparr>gPosition = (12887 / 960000, 14497 / 1080000, - 35, 1), gNormal = (0, 0, 1, 0),
      gAlbedo = (1, 1, 1, 1)\<rparr>"
  by (simp add: gbuffer_main_def depthFragment_def whiteMaterial_def normalize_vec_def vlength_def Let_def)

lemma depth_distance:
  "0 < vlength (- (12887 / 960000), - (1454497 / 1080000), 1)"
  "vlength (- (12887 / 960000), - (1454497 / 1080000), 1) < 2"
proof -
  show "0 < vlength (- (12887 / 960000), - (1454497 / 1080000), 1)"
    unfolding vlength_def dot.simps by simp
  show "vlength (- (12887 / 960000), - (1454497 / 1080000), 1) < 2"
    unfolding vlength_def dot.simps by (rule real_less_lsqrt) (simp_all add: power2_eq_square)
qed

lemma depth_contribution:
  "0 < vx (contribution (12887 / 960000, 14497 / 1080000, - 35) (0, 0, 1) (lightAt (0, - (4 / 3), - 34)))"
proof -
  define D where "D = vlength (- (12887 / 960000), - (1454497 / 1080000), 1)"
  from depth_distance have D: "0 < D" "D < 2" by (simp_all add: D_def)
  then have "0 < (1 - D / 2) / D" by (intro divide_pos_pos) simp_all
  with D show ?thesis
    unfolding contribution_def lightAt_def Let_def
    by (simp add: D_def [symmetric] lightRadius_def max_def)
qed

lemma depth_deferred_output:
  "0 < fx (deferred_main hostUniforms oneDeepLight (doLightClustering hostUniforms oneDeepLight T)
             (gbufferOf (gbuffer_main whiteMaterial depthFragment)) depthPixel)"
proof -
  have i: "deferredClusterIndex hostUniforms (fragCoord depthPixel)
             (12887 / 960000, 14497 / 1080000, - 35) = 145"
    using depth_indices(2) by (simp add: depthFragment_def)
  have l: "lights oneDeepLight 0 = lightAt (0, - (4 / 3), - 34)"
    by (simp add: oneDeepLight_def lightsOf_def)
  have n: "normalize_vec (0, 0, 1) = (0, 0, 1)"
    by (simp add: normalize_vec_def vlength_def)
  have a: "addr hostUniforms 145 0 = 74240"
    by (simp add: addr_def u32_def hostUniforms_def)
  obtain r g b where c: "contribution (12887 / 960000, 14497 / 1080000, - 35) (0, 0, 1)
      (lightAt (0, - (4 / 3), - 34)) = (r, g, b)"
    by (cases "contribution (12887 / 960000, 14497 / 1080000, - 35) (0, 0, 1)
      (lightAt (0, - (4 / 3), - 34))") auto
  with depth_contribution have "0 < r" by simp
  then show ?thesis
    by (simp add: deferred_main_def depth_gbuffer gbufferOf_def i deep_table deferredLoop_foldl
        n a l c Let_def)
qed


lemma vlength_scale: "vlength (vdivs v k) = vlength v / \<bar>k\<bar>"
proof (cases v)
  case (fields a b c)
  have "(a / k) * (a / k) + (b / k) * (b / k) + (c / k) * (c / k) = (a * a + b * b + c * c) / k\<^sup>2"
    by (simp add: power2_eq_square add_divide_distrib)
  then show ?thesis
    by (simp add: fields vlength_def real_sqrt_divide)
qed

lemma normalize_vec_idem: "normalize_vec (normalize_vec v) = normalize_vec v"
proof (cases "vlength v = 0")
  case True
  then show ?thesis by (cases v) (simp add: normalize_vec_def)
next
  case False
  have "0 \<le> vlength v" by (cases v) (simp add: vlength_def)
  with False have one: "vlength (normalize_vec v) = 1"
    by (simp add: normalize_vec_def vlength_scale)
  obtain a b c where n: "normalize_vec v = (a, b, c)" by (cases "normalize_vec v") auto
  have "normalize_vec (a, b, c) = vdivs (a, b, c) (vlength (a, b, c))"
    by (simp only: normalize_vec_def)
  also from one n have "vlength (a, b, c) = 1" by simp
  finally show ?thesis by (simp add: n)
qed

lemma pipelines_agree_on_same_cluster:
  assumes "deferredClusterIndex cl (fragCoord pixel) (xyz (worldPos input))
             = forwardClusterIndex cl (fragCoord input)"
  shows "deferred_main cl L T (gbufferOf (gbuffer_main material input)) pixel
           = forward_plus_main cl L T material input"
proof -
  obtain px py pz pw where p: "worldPos input = (px, py, pz, pw)" by (cases "worldPos input") auto
  obtain nx ny nz where n: "normalize_vec (xyz (worldNormal input)) = (nx, ny, nz)"
    by (cases "normalize_vec (xyz (worldNormal input))") auto
  obtain r g b where m: "material (uv input) = (r, g, b)" by (cases "material (uv input)") auto
  from n have n2: "normalize_vec (nx, ny, nz) = (nx, ny, nz)"
    using normalize_vec_idem [of "xyz (worldNormal input)"] by simp
  from assms show ?thesis
    by (simp add: deferred_main_def forward_plus_main_def gbufferOf_def gbuffer_main_def
        forwardLoop_foldl deferredLoop_foldl p n n2 m Let_def)
qed

section \<open>Three lights and a cluster of capacity two\<close>

text \<open>
  With a grid of one cluster, \<open>maxLightsPerCluster = 2\<close> and three lights that all pass
  the test the shader applies for that cluster, the dispatch performs exactly three
  stores: light 0 into slot 0, light 1 into slot 1, and the count 2. The third light is
  dropped without any other store, and the outcome is fixed by the order of the lights.
\<close>

lemma capacity_two_of_three:
  assumes "clustersX cl = 1" "clustersY cl = 1" "clustersZ cl = 1"
    and "maxLightsPerCluster cl = 2" and "numLights L = 3"
    and "lightIntersects cl 0 (lights L 0)"
    and "lightIntersects cl 0 (lights L 1)"
    and "lightIntersects cl 0 (lights L 2)"
  shows "dispatchWrites cl L = [WIndices 0 0, WIndices 1 1, WCounts 0 2]
       \<and> doLightClustering cl L T =
           T\<lparr>clusterIndices := (clusterIndices T)(0 := 0, 1 := 1),
             clusterCounts := (clusterCounts T)(0 := 2)\<rparr>"
proof -
  from assms have t: "totalClusters cl = 1"
    by (simp add: totalClusters_def u32_def)
  from assms have acc: "acceptedFrom cl L 0 0 = [0, 1, 2]"
    by (simp add: acceptedFrom_def upt_0_3)
  from assms have d: "dispatchWrites cl L = [WIndices 0 0, WIndices 1 1, WCounts 0 2]"
    by (simp add: dispatchWrites_total t main_char acc upt_0_2 addr_def u32_def)
  then show ?thesis
    by (simp add: doLightClustering_def applyWrites_def)
qed

text \<open>
  The three lights within \<open>lightRadius\<close> of the camera pass the test, their angular
  half-width being a right angle.
\<close>

lemma three_near_lights_capped:
  "clustersX (singleCluster 2) = 1 \<and> clustersY (singleCluster 2) = 1
   \<and> clustersZ (singleCluster 2) = 1 \<and> maxLightsPerCluster (singleCluster 2) = 2
   \<and> numLights threeNearLights = 3
   \<and> lightIntersects (singleCluster 2) 0 (lights threeNearLights 0)
   \<and> lightIntersects (singleCluster 2) 0 (lights threeNearLights 1)
   \<and> lightIntersects (singleCluster 2) 0 (lights threeNearLights 2)
   \<and> dispatchWrites (singleCluster 2) threeNearLights = [WIndices 0 0, WIndices 1 1, WCounts 0 2]
   \<and> doLightClustering (singleCluster 2) threeNearLights emptyTable =
        emptyTable\<lparr>clusterIndices := (clusterIndices emptyTable)(0 := 0, 1 := 1),
                   clusterCounts := (clusterCounts emptyTable)(0 := 2)\<rparr>"
proof -
  have g: "clustersX (singleCluster 2) = 1" "clustersY (singleCluster 2) = 1"
      "clustersZ (singleCluster 2) = 1" "maxLightsPerCluster (singleCluster 2) = 2"
    by (simp_all add: singleCluster_def)
  have n: "numLights threeNearLights = 3"
    by (simp add: threeNearLights_def lightsOf_def)
  have l0: "lightIntersects (singleCluster 2) 0 (lights threeNearLights 0)"
    using near_light_intersects [of 1 2] by (simp add: threeNearLights_def lightsOf_def)
  have l1: "lightIntersects (singleCluster 2) 0 (lights threeNearLights 1)"
    using near_light_intersects [of "3 / 2" 2] by (simp add: threeNearLights_def lightsOf_def)
  have l2: "lightIntersects (singleCluster 2) 0 (lights threeNearLights 2)"
    using near_light_intersects [of 2 2] by (simp add: threeNearLights_def lightsOf_def)
  from g n l0 l1 l2 capacity_two_of_three [OF g n l0 l1 l2, of emptyTable] show ?thesis
    by simp
qed

text \<open>
  The three lights on the camera axis, 100 units ahead and more, fail the test of the only
  cluster, although their centres lie inside it.
\<close>

lemma threeCentredLights_accepted: "acceptedFrom (singleCluster m) threeCentredLights 0 0 = []"
  using deep_centred_light_rejected [of 100 m] deep_centred_light_rejected [of 200 m]
    deep_centred_light_rejected [of 300 m]
  by (simp add: acceptedFrom_def threeCentredLights_def lightsOf_def upt_0_3)

lemma centred_inside:
  assumes "1 \<le> d" "d \<le> 1000"
  shows "centreInsideCluster (singleCluster m) 0 (lightAt (0, 0, - d))"
  using assms
  by (simp add: centreInsideCluster_def cluster_defs lightDepth_def singleCluster_def lightAt_def
      atan2_def fovY_def)

section \<open>The active light count behind the control surface\<close>

text \<open>
  \<open>updateLightSetUniformNumLights\<close> uploads the field as it is and does not compare it
  with \<open>maxNumLights\<close>; a bound on the uploaded count is a bound on the field.
\<close>

lemma update_uploads_field:
  assumes "0 \<le> numLightsField st" and "numLightsField st < 2 ^ 32"
  shows "int (bufferNumLights (updateLightSetUniformNumLights st)) = numLightsField st"
  using assms by (simp add: updateLightSetUniformNumLights_def toUint32_def)

text \<open>
  A stage whose field lies within the capacity and agrees with the uploaded count stays
  so under every request.
\<close>

lemma setActiveLightCount_keeps_range:
  assumes "0 \<le> numLightsField st" "numLightsField st \<le> maxNumLights"
    "int (bufferNumLights st) = numLightsField st"
  shows "0 \<le> numLightsField (setActiveLightCount policy n st)
       \<and> numLightsField (setActiveLightCount policy n st) \<le> maxNumLights
       \<and> int (bufferNumLights (setActiveLightCount policy n st))
           = numLightsField (setActiveLightCount policy n st)"
  using assms
  by (cases policy)
     (auto simp: setActiveLightCount_def updateLightSetUniformNumLights_def toUint32_def
        maxNumLights_def)

lemma setActiveLightCounts_keep_range:
  assumes "0 \<le> numLightsField st" "numLightsField st \<le> maxNumLights"
    "int (bufferNumLights st) = numLightsField st"
  shows "0 \<le> numLightsField (setActiveLightCounts policy ns st)
       \<and> numLightsField (setActiveLightCounts policy ns st) \<le> maxNumLights
       \<and> int (bufferNumLights (setActiveLightCounts policy ns st))
           = numLightsField (setActiveLightCounts policy ns st)"
  using assms
proof (induction ns arbitrary: st)
  case Nil
  then show ?case by (simp add: setActiveLightCounts_def)
next
  case (Cons n ns)
  from setActiveLightCount_keeps_range [OF Cons.prems, of policy n]
  have "0 \<le> numLightsField (setActiveLightCounts policy ns (setActiveLightCount policy n st))
       \<and> numLightsField (setActiveLightCounts policy ns (setActiveLightCount policy n st)) \<le> maxNumLights
       \<and> int (bufferNumLights (setActiveLightCounts policy ns (setActiveLightCount policy n st)))
           = numLightsField (setActiveLightCounts policy ns (setActiveLightCount policy n st))"
    by (intro Cons.IH) simp_all
  then show ?case by (simp add: setActiveLightCounts_def)
qed

lemma constructedStage_range:
  "0 \<le> numLightsField constructedStage" "numLightsField constructedStage \<le> maxNumLights"
  "int (bufferNumLights constructedStage) = numLightsField constructedStage"
  by (simp_all add: constructedStage_def initialStage_def updateLightSetUniformNumLights_def
      toUint32_def maxNumLights_def)

section \<open>The claims\<close>

text \<open>
  C1, at a failing input. The claim asks that a point lying in the assignment-side cell of
  flat index \<open>c\<close> be mapped by the shading-side derivation back to \<open>c\<close>. Take a 1920 by
  1080 screen, a grid of 10 by 10 by 32 cells, and the fragment at the centre of pixel
  (1737, 594) with device depth 3/4. The view-space position the Forward+ shader
  reconstructs for it through \<open>invProjMat\<close> lies within the depth slice and within the
  horizontal and vertical angular bounds that the assignment builds for cell 58, which is
  \<open>(8, 5, 0)\<close>; the shading side derives from the same fragment the tile \<open>(9, 5)\<close>, the
  slice 0 and the flat index 59. The assignment, whose comment calls these bounds "this
  cluster's coverage in camera space", divides \<open>fovX = fovY * aspect\<close> into equal steps
  of angle, whereas the shading divides the screen into equal steps of pixels, so the two
  derivations name different cells for the same point.
\<close>

theorem edge_fragment_cells_differ:
  "58 < totalClusters hostUniforms
   \<and> zNear hostUniforms 58 \<le> forwardViewDepth hostUniforms edgeFragCoord
   \<and> forwardViewDepth hostUniforms edgeFragCoord < zFar hostUniforms 58
   \<and> angleLeft hostUniforms 58
        \<le> atan2 (vx (forwardViewPos hostUniforms edgeFragCoord))
                 (forwardViewDepth hostUniforms edgeFragCoord)
   \<and> atan2 (vx (forwardViewPos hostUniforms edgeFragCoord))
            (forwardViewDepth hostUniforms edgeFragCoord)
        \<le> angleRight hostUniforms 58
   \<and> angleUp hostUniforms 58
        \<le> atan2 (vy (forwardViewPos hostUniforms edgeFragCoord))
                 (forwardViewDepth hostUniforms edgeFragCoord)
   \<and> atan2 (vy (forwardViewPos hostUniforms edgeFragCoord))
            (forwardViewDepth hostUniforms edgeFragCoord)
        \<le> angleDown hostUniforms 58
   \<and> forwardClusterIndex hostUniforms edgeFragCoord = 59"
proof -
  have t: "58 < totalClusters hostUniforms"
    by (simp add: hostUniforms_total)
  have z: "zNear hostUniforms 58 \<le> 2000 / 10001" "2000 / 10001 < zFar hostUniforms 58"
    by (simp_all add: zNear_def zFar_def zSliceDepth_def host_cell_58 u32_def)
       (simp_all add: hostUniforms_def)
  have "angleLeft hostUniforms 58 \<le> 42 / 100"
    by (simp add: angleLeft_def fovX_def fovY_def aspect_def host_cell_58)
       (simp add: hostUniforms_def)
  moreover have "42 / 100 \<le> arctan (572551 / 960000 :: real)"
    by (rule arctan_lower) (simp_all add: power2_eq_square)
  ultimately have l: "angleLeft hostUniforms 58 \<le> arctan (572551 / 960000)"
    by (rule order_trans)
  have "arctan (572551 / 960000 :: real) \<le> 2 * (2757 / 10000)"
    by (rule arctan_upper_double) (simp_all add: power2_eq_square)
  moreover have "2 * (2757 / 10000) \<le> angleRight hostUniforms 58"
    by (simp add: angleRight_def fovX_def fovY_def aspect_def host_cell_58 u32_def)
       (simp add: hostUniforms_def)
  ultimately have r: "arctan (572551 / 960000) \<le> angleRight hostUniforms 58"
    by (rule order_trans)
  have u: "angleUp hostUniforms 58 \<le> arctan (225739 / 5400000)"
    by (simp add: angleUp_def fovY_def host_cell_58)
       (simp add: hostUniforms_def)
  have "arctan (225739 / 5400000 :: real) \<le> 225739 / 5400000"
    by (rule arctan_upper_self) simp
  moreover have "225739 / 5400000 \<le> angleDown hostUniforms 58"
    by (simp add: angleDown_def fovY_def host_cell_58 u32_def)
       (simp add: hostUniforms_def)
  ultimately have d: "arctan (225739 / 5400000) \<le> angleDown hostUniforms 58"
    by (rule order_trans)
  from t z l r u d show ?thesis
    by (simp only: edge_horizontal edge_index) (simp add: edge_depth)
qed

text \<open>
  C2. After one dispatch of the assignment, the count written for every cluster \<open>c\<close> of
  the grid lies between 0 and \<open>maxLightsPerCluster\<close>, whatever the number of active lights
  and wherever they are. (Counts are natural numbers, so the lower bound is in the type.)
\<close>

theorem counts_bounded:
  "c < totalClusters cl \<Longrightarrow> clusterCounts (doLightClustering cl L T) c \<le> maxLightsPerCluster cl"
  by (simp add: counts_after)

theorem counts_bounded_witness:
  "0 < totalClusters hostUniforms \<and>
   clusterCounts (doLightClustering hostUniforms oneNearLight emptyTable) 0
     \<le> maxLightsPerCluster hostUniforms"
  using counts_bounded [of 0 hostUniforms oneNearLight emptyTable]
  by (simp add: totalClusters_def u32_def hostUniforms_def)

text \<open>
  C3, at a failing input. One cluster, capacity 512, one light on the camera axis 100
  units ahead: its centre lies inside the depth slice and between the angular bounds of
  the cluster on both axes, yet the dispatch stores only the count 0. The vertical test
  compares the light's upper angle with \<open>angleDown\<close>, which is the larger bound, and its
  lower angle with \<open>angleUp\<close>, the smaller one, so a light passes only when its angular
  extent covers the whole vertical span of the cluster.
\<close>

theorem centred_light_dropped:
  "zNear (singleCluster 512) 0 \<le> lightDepth (singleCluster 512) (lights oneCentredLight 0)
   \<and> lightDepth (singleCluster 512) (lights oneCentredLight 0) \<le> zFar (singleCluster 512) 0
   \<and> angleLeft (singleCluster 512) 0
        \<le> atan2 (vx (lightPosView (singleCluster 512) (lights oneCentredLight 0)))
                 (lightDepth (singleCluster 512) (lights oneCentredLight 0))
   \<and> atan2 (vx (lightPosView (singleCluster 512) (lights oneCentredLight 0)))
                 (lightDepth (singleCluster 512) (lights oneCentredLight 0))
        \<le> angleRight (singleCluster 512) 0
   \<and> angleUp (singleCluster 512) 0
        \<le> atan2 (vy (lightPosView (singleCluster 512) (lights oneCentredLight 0)))
                 (lightDepth (singleCluster 512) (lights oneCentredLight 0))
   \<and> atan2 (vy (lightPosView (singleCluster 512) (lights oneCentredLight 0)))
                 (lightDepth (singleCluster 512) (lights oneCentredLight 0))
        \<le> angleDown (singleCluster 512) 0
   \<and> numLights oneCentredLight = 1
   \<and> maxLightsPerCluster (singleCluster 512) = 512
   \<and> dispatchWrites (singleCluster 512) oneCentredLight = [WCounts 0 0]
   \<and> clusterCounts (doLightClustering (singleCluster 512) oneCentredLight emptyTable) 0 = 0"
proof -
  have d: "dispatchWrites (singleCluster 512) oneCentredLight = [WCounts 0 0]"
    by (simp add: singleCluster_dispatch oneCentredLight_accepted)
  have g: "zNear (singleCluster 512) 0 \<le> lightDepth (singleCluster 512) (lights oneCentredLight 0)
   \<and> lightDepth (singleCluster 512) (lights oneCentredLight 0) \<le> zFar (singleCluster 512) 0"
    by (simp add: cluster_defs lightDepth_def singleCluster_def oneCentredLight_def lightsOf_def lightAt_def)
  have h: "angleLeft (singleCluster 512) 0
        \<le> atan2 (vx (lightPosView (singleCluster 512) (lights oneCentredLight 0)))
                 (lightDepth (singleCluster 512) (lights oneCentredLight 0))
   \<and> atan2 (vx (lightPosView (singleCluster 512) (lights oneCentredLight 0)))
                 (lightDepth (singleCluster 512) (lights oneCentredLight 0))
        \<le> angleRight (singleCluster 512) 0"
    by (simp add: cluster_defs lightDepth_def singleCluster_def oneCentredLight_def lightsOf_def lightAt_def
        atan2_def fovY_def)
  have v: "angleUp (singleCluster 512) 0
        \<le> atan2 (vy (lightPosView (singleCluster 512) (lights oneCentredLight 0)))
                 (lightDepth (singleCluster 512) (lights oneCentredLight 0))
   \<and> atan2 (vy (lightPosView (singleCluster 512) (lights oneCentredLight 0)))
                 (lightDepth (singleCluster 512) (lights oneCentredLight 0))
        \<le> angleDown (singleCluster 512) 0"
    by (simp add: cluster_defs lightDepth_def singleCluster_def oneCentredLight_def lightsOf_def lightAt_def
        atan2_def fovY_def)
  have n: "numLights oneCentredLight = 1" "maxLightsPerCluster (singleCluster 512) = 512"
    by (simp_all add: oneCentredLight_def lightsOf_def singleCluster_def)
  from g h v n show ?thesis
    by (simp add: d doLightClustering_def applyWrites_def)
qed

text \<open>
  C4 (Scenario C), at a failing input. One cluster, \<open>maxLightsPerCluster = 2\<close>, and
  three lights on the camera axis, 100, 200 and 300 units ahead. The centre of each light
  lies inside the depth slice and between the angular bounds of the cluster on both axes,
  so all three lights overlap the cluster and the claim asks for the count 2 and two of
  the three indices. The dispatch stores no index and the count 0. The cause is the
  vertical test, which compares the light's upper angle with \<open>angleDown\<close> and its lower
  angle with \<open>angleUp\<close>, the two bounds exchanged: a light passes only when its angular
  extent covers the whole vertical span of the cluster.
\<close>

theorem three_centred_lights_dropped:
  "maxLightsPerCluster (singleCluster 2) = 2
   \<and> totalClusters (singleCluster 2) = 1
   \<and> numLights threeCentredLights = 3
   \<and> centreInsideCluster (singleCluster 2) 0 (lights threeCentredLights 0)
   \<and> centreInsideCluster (singleCluster 2) 0 (lights threeCentredLights 1)
   \<and> centreInsideCluster (singleCluster 2) 0 (lights threeCentredLights 2)
   \<and> dispatchWrites (singleCluster 2) threeCentredLights = [WCounts 0 0]
   \<and> clusterCounts (doLightClustering (singleCluster 2) threeCentredLights emptyTable) 0 = 0"
proof -
  have m: "maxLightsPerCluster (singleCluster 2) = 2"
    by (simp add: singleCluster_def)
  have n: "numLights threeCentredLights = 3"
    by (simp add: threeCentredLights_def lightsOf_def)
  have i0: "centreInsideCluster (singleCluster 2) 0 (lights threeCentredLights 0)"
    using centred_inside [of 100 2] by (simp add: threeCentredLights_def lightsOf_def)
  have i1: "centreInsideCluster (singleCluster 2) 0 (lights threeCentredLights 1)"
    using centred_inside [of 200 2] by (simp add: threeCentredLights_def lightsOf_def)
  have i2: "centreInsideCluster (singleCluster 2) 0 (lights threeCentredLights 2)"
    using centred_inside [of 300 2] by (simp add: threeCentredLights_def lightsOf_def)
  have d: "dispatchWrites (singleCluster 2) threeCentredLights = [WCounts 0 0]"
    by (simp add: singleCluster_dispatch threeCentredLights_accepted)
  from m n i0 i1 i2 show ?thesis
    by (simp add: d singleCluster_total doLightClustering_def applyWrites_def)
qed

text \<open>
  C5, as stated: a light whose distance from the camera exceeds \<open>far + lightRadius\<close> is
  assigned to no cluster. The light 5000 units to the side of the camera, one unit in
  front of it, is at a distance above 1002 and is stored in the list of the only cluster:
  the depth pre-filter looks at the forward distance alone, and within \<open>lightRadius\<close> of
  the camera plane the angular half-width is a right angle.
\<close>

theorem distant_side_light_assigned:
  "far (singleCluster 512) + lightRadius < lightDistance (singleCluster 512) (lights oneSideLight 0)
   \<and> WIndices 0 0 \<in> set (dispatchWrites (singleCluster 512) oneSideLight)
   \<and> clusterCounts (doLightClustering (singleCluster 512) oneSideLight emptyTable) 0 = 1
   \<and> clusterIndices (doLightClustering (singleCluster 512) oneSideLight emptyTable) 0 = 0"
proof -
  have "(1002::real)\<^sup>2 < 5000 * 5000 + 1" by simp
  then have "(1002::real) < sqrt (5000 * 5000 + 1)" by (rule real_less_rsqrt)
  then have a: "far (singleCluster 512) + lightRadius < lightDistance (singleCluster 512) (lights oneSideLight 0)"
    by (simp add: lightDistance_def vlength_def lightPosView_def oneSideLight_def lightsOf_def
        lightAt_def singleCluster_def identityMat_def lightRadius_def)
  have d: "dispatchWrites (singleCluster 512) oneSideLight = [WIndices 0 0, WCounts 0 1]"
    by (simp add: singleCluster_dispatch oneSideLight_accepted upt_conv_Cons u32_def)
  from a show ?thesis
    by (simp add: d doLightClustering_def applyWrites_def)
qed

text \<open>
  C5, amended: when \<open>near \<le> far\<close>, a light whose forward distance (its depth along the
  view axis) exceeds \<open>far + lightRadius\<close> fails the test of every cluster of the grid, its
  index is stored in no list, and every count is the capped number of the other lights
  that pass.
\<close>

theorem far_lights_unassigned:
  assumes "near cl \<le> far cl" and "far cl + lightRadius < lightDepth cl (lights L j)"
  shows "(\<forall>c < totalClusters cl. \<not> lightIntersects cl c (lights L j))
       \<and> (\<forall>a. WIndices a j \<notin> set (dispatchWrites cl L))
       \<and> (\<forall>c < totalClusters cl. clusterCounts (doLightClustering cl L T) c =
             min (maxLightsPerCluster cl)
               (length (filter (\<lambda>i. i \<noteq> j \<and> lightIntersects cl c (lights L i)) [0 ..< numLights L])))"
proof -
  have rej: "\<not> lightIntersects cl c (lights L j)" if "c < totalClusters cl" for c
  proof -
    from zFar_le_far [OF that assms(1)] assms(2)
    have "zFar cl c + lightRadius < lightDepth cl (lights L j)" by simp
    then show ?thesis by (rule depth_reject)
  qed
  have nostore: "WIndices a j \<notin> set (dispatchWrites cl L)" for a
  proof
    assume "WIndices a j \<in> set (dispatchWrites cl L)"
    then obtain c k where c: "c < totalClusters cl"
      and k: "k < min (maxLightsPerCluster cl) (length (acceptedFrom cl L c 0))"
      and j: "j = acceptedFrom cl L c 0 ! k"
      by (auto dest!: dispatch_WIndices)
    from k j have "j \<in> set (acceptedFrom cl L c 0)" by simp
    then have "lightIntersects cl c (lights L j)" by (simp add: acceptedFrom_mem)
    with rej [OF c] show False by simp
  qed
  have cnt: "clusterCounts (doLightClustering cl L T) c =
             min (maxLightsPerCluster cl)
               (length (filter (\<lambda>i. i \<noteq> j \<and> lightIntersects cl c (lights L i)) [0 ..< numLights L]))"
    if "c < totalClusters cl" for c
    using that acceptedFrom_without [OF rej [OF that]] by (simp add: counts_after)
  from rej nostore cnt show ?thesis by blast
qed

theorem far_lights_unassigned_witness:
  "near hostUniforms \<le> far hostUniforms
   \<and> far hostUniforms + lightRadius < lightDepth hostUniforms (lights oneFarLight 0)
   \<and> 0 < totalClusters hostUniforms
   \<and> \<not> lightIntersects hostUniforms 0 (lights oneFarLight 0)
   \<and> WIndices 0 0 \<notin> set (dispatchWrites hostUniforms oneFarLight)
   \<and> clusterCounts (doLightClustering hostUniforms oneFarLight emptyTable) 0 = 0"
proof -
  have a: "near hostUniforms \<le> far hostUniforms"
    by (simp add: hostUniforms_def)
  have b: "far hostUniforms + lightRadius < lightDepth hostUniforms (lights oneFarLight 0)"
    by (simp add: hostUniforms_def lightRadius_def lightDepth_def lightPosView_def oneFarLight_def
        lightsOf_def lightAt_def identityMat_def)
  have c: "0 < totalClusters hostUniforms"
    by (simp add: hostUniforms_total)
  have n: "numLights oneFarLight = 1"
    by (simp add: oneFarLight_def lightsOf_def)
  note T = far_lights_unassigned [OF a b, of emptyTable]
  from T c have 1: "\<not> lightIntersects hostUniforms 0 (lights oneFarLight 0)" by blast
  from T have 2: "WIndices 0 0 \<notin> set (dispatchWrites hostUniforms oneFarLight)" by blast
  from T c have "clusterCounts (doLightClustering hostUniforms oneFarLight emptyTable) 0 =
      min (maxLightsPerCluster hostUniforms)
        (length (filter (\<lambda>i. i \<noteq> 0 \<and> lightIntersects hostUniforms 0 (lights oneFarLight i)) [0 ..< numLights oneFarLight]))"
    by blast
  then have 3: "clusterCounts (doLightClustering hostUniforms oneFarLight emptyTable) 0 = 0"
    by (simp add: n)
  from a b c 1 2 3 show ?thesis by simp
qed

text \<open>
  C6, at a failing input. Camera parameters of the host, one light 34 units ahead, and the
  cluster table the assignment produces for it. A surface point 35 units ahead that faces
  the camera is drawn at pixel (960, 539) with the device depth \<open>clip.z / clip.w\<close> of its
  projection. Forward+ maps \<open>fragCoord.z\<close> to \<open>2 z - 1\<close> before applying \<open>invProjMat\<close>,
  recovers a view depth of about 17.8 and reads cluster 45, whose list is empty: the
  output is black. Clustered Deferred takes the view depth 35 from the stored position,
  reads cluster 145, finds the light and writes a positive red channel. (When both passes
  read the same cluster their outputs are equal: lemma \<open>pipelines_agree_on_same_cluster\<close>.)
\<close>

theorem pipelines_differ_at_depth:
  "fz (fragCoord depthFragment)
     = fz (mulMV (projMat hostUniforms) (mulMV (viewMat hostUniforms) (worldPos depthFragment)))
       / fw (mulMV (projMat hostUniforms) (mulMV (viewMat hostUniforms) (worldPos depthFragment)))
   \<and> forwardClusterIndex hostUniforms (fragCoord depthFragment) = 45
   \<and> deferredClusterIndex hostUniforms (fragCoord depthPixel) (xyz (worldPos depthFragment)) = 145
   \<and> forward_plus_main hostUniforms oneDeepLight
        (doLightClustering hostUniforms oneDeepLight emptyTable) whiteMaterial depthFragment
        = (0, 0, 0, 1)
   \<and> 0 < fx (deferred_main hostUniforms oneDeepLight
               (doLightClustering hostUniforms oneDeepLight emptyTable)
               (gbufferOf (gbuffer_main whiteMaterial depthFragment)) depthPixel)"
proof -
  have "fz (fragCoord depthFragment)
     = fz (mulMV (projMat hostUniforms) (mulMV (viewMat hostUniforms) (worldPos depthFragment)))
       / fw (mulMV (projMat hostUniforms) (mulMV (viewMat hostUniforms) (worldPos depthFragment)))"
    by (simp add: depthFragment_def hostUniforms_def perspectiveMat_def identityMat_def)
  with depth_indices depth_forward_output [of emptyTable] depth_deferred_output [of emptyTable]
  show ?thesis by simp
qed

text \<open>
  C7. The assignment is a function of the clustering parameters and the light buffer, so
  two runs on the same inputs store the same values; and a second run on the table the
  first run left changes nothing: counts and indices stay identical, entry by entry.
\<close>

theorem assignment_idempotent:
  "doLightClustering cl L (doLightClustering cl L T) = doLightClustering cl L T"
  by (simp add: doLightClustering_def applyWrites_idem)

text \<open>
  C8. In both shading passes the output colour is the albedo times the sum, over exactly
  the first \<open>clusterCounts[clusterIndex]\<close> entries of the cluster's list, of the contribution
  of the listed light: \<open>lightColor * max(dot(N, L), 0) * (1 - dist / lightRadius)\<close> when
  \<open>dist \<le> lightRadius\<close> and zero otherwise; the alpha channel is 1. (At \<open>dist = 0\<close> the
  direction \<open>L\<close> is a division by zero on both sides of the equation.)
\<close>

theorem shading_sum:
  "forward_plus_main cl L T material input =
     rgba (vmul (material (uv input))
       (sumv (map (contribution (xyz (worldPos input)) (normalize_vec (xyz (worldNormal input))))
          (clusterLights cl L T (forwardClusterIndex cl (fragCoord input))))))
   \<and> deferred_main cl L T G pixel =
     (let pixelCoord = (f32_to_i32 (fx (fragCoord pixel)), f32_to_i32 (fy (fragCoord pixel)));
          fragPos = xyz (gPositionTex G pixelCoord)
      in rgba (vmul (xyz (gAlbedoTex G pixelCoord))
           (sumv (map (contribution fragPos (normalize_vec (xyz (gNormalTex G pixelCoord))))
              (clusterLights cl L T (deferredClusterIndex cl (fragCoord pixel) fragPos))))))"
  by (simp add: forward_plus_main_def deferred_main_def forwardLoop_foldl deferredLoop_foldl
      clusterLights_def sumv_def rgba_def Let_def o_def)

text \<open>
  C9. The control surface \<open>setActiveLightCount\<close> is modelled from the specification;
  the stage starts as the constructor of \<open>Lights\<close> leaves it. Whatever requests are made
  and whichever of the two treatments of an out-of-range request is chosen, the count
  uploaded to the light buffer, which is the \<open>numLights\<close> the assignment and animation
  shaders read, never exceeds \<open>maxNumLights\<close>. A request brought into the range
  \<open>0 \<le> n \<le> maxNumLights\<close> is uploaded as it is. A request above the capacity leaves the
  stage untouched when it is rejected, and uploads \<open>maxNumLights\<close> when it is clamped.
\<close>

theorem active_count_within_capacity:
  "int (bufferNumLights (setActiveLightCounts policy ns constructedStage)) \<le> maxNumLights
   \<and> int (bufferNumLights (setActiveLightCount policy (max 0 (min n maxNumLights)) st))
       = max 0 (min n maxNumLights)
   \<and> setActiveLightCount Reject (maxNumLights + 1 + \<bar>n\<bar>) st = st
   \<and> int (bufferNumLights (setActiveLightCount Clamp (maxNumLights + 1 + \<bar>n\<bar>) st)) = maxNumLights"
proof -
  from setActiveLightCounts_keep_range [OF constructedStage_range, of policy ns]
  have 1: "int (bufferNumLights (setActiveLightCounts policy ns constructedStage)) \<le> maxNumLights"
    by simp
  have 2: "int (bufferNumLights (setActiveLightCount policy (max 0 (min n maxNumLights)) st))
       = max 0 (min n maxNumLights)"
    by (simp add: setActiveLightCount_def updateLightSetUniformNumLights_def toUint32_def
        maxNumLights_def)
  have over: "\<not> (1 + \<bar>n\<bar> \<le> 0)" by linarith
  have 3: "setActiveLightCount Reject (maxNumLights + 1 + \<bar>n\<bar>) st = st"
    by (simp add: setActiveLightCount_def over)
  have 4: "int (bufferNumLights (setActiveLightCount Clamp (maxNumLights + 1 + \<bar>n\<bar>) st)) = maxNumLights"
    by (simp add: setActiveLightCount_def updateLightSetUniformNumLights_def toUint32_def over)
      (simp add: maxNumLights_def)
  from 1 2 3 4 show ?thesis by simp
qed

text \<open>
  C10. When the cluster count fits a \<open>u32\<close>: an invocation whose global index is at
  least \<open>clustersX * clustersY * clustersZ\<close> performs no store; every store of the
  dispatch of \<open>ceil(numClusters / 64)\<close> workgroups lands inside the two tables; the count
  of each cluster of the grid is stored exactly once; and the entries of both buffers
  beyond the tables are left as they were.
\<close>

theorem idle_invocations:
  assumes "numClusters cl < 2 ^ 32"
  shows "(\<forall>gid \<ge> numClusters cl. main cl L gid = [])
       \<and> (\<forall>a v. WCounts a v \<in> set (dispatchWrites cl L) \<longrightarrow> a < numClusters cl)
       \<and> (\<forall>a v. WIndices a v \<in> set (dispatchWrites cl L)
            \<longrightarrow> a < numClusters cl * maxLightsPerCluster cl)
       \<and> (\<forall>c < numClusters cl. length (filter (isCountStore c) (dispatchWrites cl L)) = 1)
       \<and> (\<forall>a \<ge> numClusters cl. clusterCounts (doLightClustering cl L T) a = clusterCounts T a)
       \<and> (\<forall>a \<ge> numClusters cl * maxLightsPerCluster cl.
            clusterIndices (doLightClustering cl L T) a = clusterIndices T a)"
proof -
  from assms have eq: "totalClusters cl = numClusters cl" by (rule totalClusters_eq)
  have 1: "\<forall>gid \<ge> numClusters cl. main cl L gid = []"
    using eq by (simp add: main_idle)
  have 2: "\<forall>a v. WCounts a v \<in> set (dispatchWrites cl L) \<longrightarrow> a < numClusters cl"
    using eq by (auto dest: dispatch_WCounts)
  have 3: "\<forall>a v. WIndices a v \<in> set (dispatchWrites cl L)
            \<longrightarrow> a < numClusters cl * maxLightsPerCluster cl"
    by (auto dest!: dispatch_WIndices intro: addr_less)
  have 4: "\<forall>c < numClusters cl. length (filter (isCountStore c) (dispatchWrites cl L)) = 1"
    using eq by (simp add: filter_count_dispatch)
  have 5: "\<forall>a \<ge> numClusters cl. clusterCounts (doLightClustering cl L T) a = clusterCounts T a"
    using eq by (simp add: counts_outside)
  have 6: "\<forall>a \<ge> numClusters cl * maxLightsPerCluster cl.
            clusterIndices (doLightClustering cl L T) a = clusterIndices T a"
    by (simp add: indices_outside)
  from 1 2 3 4 5 6 show ?thesis by blast
qed

theorem idle_invocations_witness:
  "numClusters (singleCluster 2) < 2 ^ 32
   \<and> numClusters (singleCluster 2) \<le> 1 \<and> main (singleCluster 2) oneNearLight 1 = []
   \<and> WCounts 0 1 \<in> set (dispatchWrites (singleCluster 2) oneNearLight)
   \<and> 0 < numClusters (singleCluster 2)
   \<and> WIndices 0 0 \<in> set (dispatchWrites (singleCluster 2) oneNearLight)
   \<and> 0 < numClusters (singleCluster 2) * maxLightsPerCluster (singleCluster 2)
   \<and> length (filter (isCountStore 0) (dispatchWrites (singleCluster 2) oneNearLight)) = 1
   \<and> clusterCounts (doLightClustering (singleCluster 2) oneNearLight emptyTable) 1
        = clusterCounts emptyTable 1
   \<and> clusterIndices (doLightClustering (singleCluster 2) oneNearLight emptyTable) 2
        = clusterIndices emptyTable 2"
proof -
  have n: "numClusters (singleCluster 2) = 1" and m: "maxLightsPerCluster (singleCluster 2) = 2"
    by (simp_all add: numClusters_def singleCluster_def)
  have lt: "numClusters (singleCluster 2) < 2 ^ 32"
    by (simp add: n)
  note T = idle_invocations [OF lt, of oneNearLight emptyTable]
  have d: "dispatchWrites (singleCluster 2) oneNearLight = [WIndices 0 0, WCounts 0 1]"
    by (simp add: singleCluster_dispatch oneNearLight_accepted upt_0_2 u32_def)
  from T have 1: "main (singleCluster 2) oneNearLight 1 = []"
    by (simp add: n)
  from T have 4: "length (filter (isCountStore 0) (dispatchWrites (singleCluster 2) oneNearLight)) = 1"
    by (simp add: n)
  from T have 5: "clusterCounts (doLightClustering (singleCluster 2) oneNearLight emptyTable) 1
        = clusterCounts emptyTable 1"
    by (simp add: n)
  from T have 6: "clusterIndices (doLightClustering (singleCluster 2) oneNearLight emptyTable) 2
        = clusterIndices emptyTable 2"
    by (simp add: n m)
  from lt 1 4 5 6 show ?thesis
    by (simp add: n m d)
qed

end
